theory Spec2Isabelle
  imports Complex_Main "HOL-Library.Word"
begin

section \<open>Sub-band length bookkeeping of the CDF 9/7 wavelet engine\<close>

text \<open>
  The header of the engine defines three free functions on \<open>size_t\<close> values:
  \<open>num_of_xforms\<close>, \<open>num_of_partitions\<close> and \<open>calc_approx_detail_len\<close>.
  \<open>size_t\<close> is an unsigned 64-bit machine integer, so it is a \<open>64 word\<close>: addition and
  subtraction wrap, \<open>div\<close> is unsigned division and \<open>unat\<close> reads the value.
\<close>

type_synonym size_t = "64 word"

subsection \<open>The outcome codes\<close>

datatype RTNType =
    Good
  | WrongDims
  | BitstreamWrongLen
  | IOError
  | InvalidParam
  | QzLevelTooBig
  | EmptyStream
  | BitBudgetMet
  | VersionMismatch
  | ZSTDMismatch
  | ZSTDError
  | SliceVolumeMismatch
  | QzModeMismatch
  | SetBPPBeforeDims
  | DataRangeNotSet
  | CompModeUnknown
  | Error

subsection \<open>\<open>num_of_xforms\<close>\<close>

text \<open>
  \<^verbatim>\<open>
  auto num_of_xforms(size_t len) -> size_t
  {
    assert(len > 0);
    const auto f = std::log2(double(len) / 8.0);
    const auto num = f < 0.0 ? size_t{0} : static_cast<size_t>(f) + 1;
    return std::min(num, size_t{6});
  }
  \<close>
  The failing assertion is the result \<open>None\<close>. The double \<open>f\<close> is read as the real
  number it approximates: the result only depends on the sign of \<open>f\<close> and on the integer
  part of \<open>f\<close> below 6, and the conversion of a non-negative double to \<open>size_t\<close>
  truncates, which is the floor.
\<close>

definition num_of_xforms :: "size_t \<Rightarrow> size_t option" where
  "num_of_xforms len =
     (if 0 < len then
        (let f = log 2 (real (unat len) / 8);
             num = (if f < 0 then (0 :: size_t) else word_of_int \<lfloor>f\<rfloor> + 1)
         in Some (min num 6))
      else None)"

subsection \<open>\<open>num_of_partitions\<close>\<close>

text \<open>
  \<^verbatim>\<open>
  auto num_of_partitions(size_t len) -> size_t
  {
    size_t num_of_parts = 0;
    while (len > 1) {
      num_of_parts++;
      len -= len / 2;
    }
    return num_of_parts;
  }
  \<close>
  The \<open>while\<close> loop is a recursion in the option monad: a run that never leaves the
  loop is the value \<open>None\<close>.
\<close>

partial_function (option) num_of_partitions_loop :: "size_t \<Rightarrow> size_t \<Rightarrow> size_t option" where
  "num_of_partitions_loop len num_of_parts =
     (if 1 < len then num_of_partitions_loop (len - len div 2) (num_of_parts + 1)
      else Some num_of_parts)"

declare num_of_partitions_loop.simps [code]

definition num_of_partitions :: "size_t \<Rightarrow> size_t option" where
  "num_of_partitions len = num_of_partitions_loop len 0"

subsection \<open>\<open>calc_approx_detail_len\<close>\<close>

text \<open>
  \<^verbatim>\<open>
  auto calc_approx_detail_len(size_t orig_len, size_t lev) -> std::array<size_t, 2>
  {
    size_t low_len = orig_len;
    size_t high_len = 0;
    for (size_t i = 0; i < lev; i++) {
      high_len = low_len / 2;
      low_len -= high_len;
    }
    return {low_len, high_len};
  }
  \<close>
  The \<open>for\<close> loop carries \<open>i\<close>, \<open>low_len\<close> and \<open>high_len\<close>; it ends because
  \<open>i < lev\<close> leaves room for \<open>i + 1\<close>.
\<close>

function calc_approx_detail_len_loop ::
  "size_t \<Rightarrow> size_t \<Rightarrow> size_t \<Rightarrow> size_t \<Rightarrow> size_t \<times> size_t" where
  "calc_approx_detail_len_loop i lev low_len high_len =
     (if i < lev then
        (let high_len' = low_len div 2;
             low_len' = low_len - high_len'
         in calc_approx_detail_len_loop (i + 1) lev low_len' high_len')
      else (low_len, high_len))"
  by pat_completeness auto
termination
proof (relation "measure (\<lambda>(i, lev, low_len, high_len). unat lev - unat i)")
  show "wf (measure (\<lambda>(i, lev, low_len, high_len). unat lev - unat i))"
    by simp
next
  fix i lev low_len high_len x xa :: size_t
  assume less: "i < lev"
  then have "unat (i + 1) = unat i + 1"
    by (metis add_cancel_left_left inc_i linorder_le_less_linear olen_add_eqv
        unat_plus_simple unsigned_0 unsigned_1 word_less_1)
  moreover from less have "unat i < unat lev"
    by (simp add: word_less_nat_alt)
  ultimately
  show "((i + 1, lev, xa, x), (i, lev, low_len, high_len))
      \<in> measure (\<lambda>(i, lev, low_len, high_len). unat lev - unat i)"
    by simp
qed

declare calc_approx_detail_len_loop.simps [simp del]

definition calc_approx_detail_len :: "size_t \<Rightarrow> size_t \<Rightarrow> size_t \<times> size_t" where
  "calc_approx_detail_len orig_len lev = calc_approx_detail_len_loop 0 lev orig_len 0"

subsection \<open>The recurrence of the sub-band lengths\<close>

text \<open>
  The data model describes the lengths along one axis by a recurrence on natural numbers:
  \<open>a\<^sub>0 = L\<close>, \<open>d\<^sub>0 = 0\<close>, \<open>d\<^sub>i\<^sub>+\<^sub>1 = \<lfloor>a\<^sub>i / 2\<rfloor>\<close> and
  \<open>a\<^sub>i\<^sub>+\<^sub>1 = a\<^sub>i - d\<^sub>i\<^sub>+\<^sub>1\<close>. \<open>approx_len L i\<close> is \<open>a\<^sub>i\<close> and
  \<open>detail_len L i\<close> is \<open>d\<^sub>i\<close>. The number of wavelet-packet partitions is described as
  the number of steps \<open>L \<leftarrow> L - \<lfloor>L / 2\<rfloor>\<close> until \<open>L \<le> 1\<close>: the least \<open>n\<close> with
  \<open>a\<^sub>n \<le> 1\<close>.
\<close>

primrec approx_len :: "nat \<Rightarrow> nat \<Rightarrow> nat" where
  "approx_len L 0 = L"
| "approx_len L (Suc i) = approx_len L i - approx_len L i div 2"

primrec detail_len :: "nat \<Rightarrow> nat \<Rightarrow> nat" where
  "detail_len L 0 = 0"
| "detail_len L (Suc i) = approx_len L i div 2"

definition halvings_until_one :: "nat \<Rightarrow> nat" where
  "halvings_until_one L = (LEAST n. approx_len L n \<le> 1)"


section \<open>The transform engine\<close>

text \<open>
  The class \<open>CDF97\<close> is declared in the header with its data members and its lifting
  constants; the bodies of its member functions are in a translation unit that is not part
  of the sources at hand. The members and constants below are taken from the declaration.
  The member functions are modelled from the system description, each one marked as such.
  Samples are doubles; they are read as the real numbers they stand for, and no property
  below depends on how an operation rounds.
\<close>

type_synonym vecd_type = "real list"
type_synonym dims_type = "size_t \<times> size_t \<times> size_t"

subsection \<open>Lifting constants\<close>

text \<open>
  \<^verbatim>\<open>
  const std::array<double, 5> h = {0.602949018236, 0.266864118443, -0.078223266529,
                                   -0.016864118443, 0.026748757411};
  const double r0 = h[0] - 2.0 * h[4] * h[1] / h[3];
  const double r1 = h[2] - h[4] - h[4] * h[1] / h[3];
  const double s0 = h[1] - h[3] - h[3] * r0 / r1;
  const double t0 = h[0] - 2.0 * (h[2] - h[4]);
  const double ALPHA = h[4] / h[3];
  const double BETA = h[3] / r1;
  const double GAMMA = r1 / s0;
  const double DELTA = s0 / t0;
  const double EPSILON = std::sqrt(2.0) * t0;
  const double INV_EPSILON = 1.0 / EPSILON;
  \<close>
  These are constant members with initialisers. The definitions below are the real numbers
  that the initialisers denote; the doubles of the program are roundings of them, so an
  identity of the reals such as \<open>EPSILON \<cdot> INV_EPSILON = 1\<close> need not hold of the doubles.
  The constants only serve as the coefficients of the modelled kernels, and no theorem of
  this theory depends on their values.
\<close>

definition h :: "real list" where
  "h = [0.602949018236, 0.266864118443, -0.078223266529, -0.016864118443, 0.026748757411]"

definition r0 :: real where
  "r0 = h ! 0 - 2.0 * h ! 4 * h ! 1 / h ! 3"

definition r1 :: real where
  "r1 = h ! 2 - h ! 4 - h ! 4 * h ! 1 / h ! 3"

definition s0 :: real where
  "s0 = h ! 1 - h ! 3 - h ! 3 * r0 / r1"

definition t0 :: real where
  "t0 = h ! 0 - 2.0 * (h ! 2 - h ! 4)"

definition ALPHA :: real where
  "ALPHA = h ! 4 / h ! 3"

definition BETA :: real where
  "BETA = h ! 3 / r1"

definition GAMMA :: real where
  "GAMMA = r1 / s0"

definition DELTA :: real where
  "DELTA = s0 / t0"

definition EPSILON :: real where
  "EPSILON = sqrt 2.0 * t0"

definition INV_EPSILON :: real where
  "INV_EPSILON = 1.0 / EPSILON"

subsection \<open>The object state\<close>

text \<open>
  \<^verbatim>\<open>
  vecd_type m_data_buf;          // Holds the entire input data.
  dims_type m_dims = {0, 0, 0};  // Dimension of the data volume
  vecd_type m_qcc_buf;
  vecd_type m_slice_buf;
  \<close>
\<close>

record CDF97 =
  m_data_buf :: vecd_type
  m_dims :: dims_type
  m_qcc_buf :: vecd_type
  m_slice_buf :: vecd_type

text \<open>
  The object as it is constructed: empty sequences, and the shape \<open>{0, 0, 0}\<close> of the
  member initialiser.
\<close>

definition CDF97_new :: CDF97 where
  "CDF97_new = \<lparr>m_data_buf = [], m_dims = (0, 0, 0), m_qcc_buf = [], m_slice_buf = []\<rparr>"

text \<open>
  Modelled from the spec: the number of samples of a volume of shape \<open>(dx, dy, dz)\<close>,
  \<open>N = dx \<cdot> dy \<cdot> dz\<close>, as a product of numbers.
\<close>

definition volume :: "dims_type \<Rightarrow> nat" where
  "volume dims = (case dims of (dx, dy, dz) \<Rightarrow> unat dx * unat dy * unat dz)"

text \<open>
  Modelled from the spec: the longest axis, \<open>max(dx, dy, dz)\<close>, which sizes the lift scratch.
\<close>

definition max_col :: "dims_type \<Rightarrow> nat" where
  "max_col dims = (case dims of (dx, dy, dz) \<Rightarrow> max (max (unat dx) (unat dy)) (unat dz))"

subsection \<open>Ingest and output\<close>

text \<open>
  Modelled from the spec: the body of \<open>CDF97::take_data\<close> is missing. The description of
  ingest-move: the caller transfers a ready-made double sequence with a shape; the
  operation verifies \<open>len = dx \<cdot> dy \<cdot> dz\<close> and surfaces \<open>WrongDims\<close> on a mismatch;
  otherwise it installs buffer and shape, reallocates the lift scratch to
  \<open>2 \<cdot> max(dx, dy, dz)\<close> doubles and leaves the plane scratch to be allocated by the first
  wavelet-packet call. The product of the sizes is the product of numbers. A failed
  ingest leaves the object as it was.
\<close>

definition take_data :: "vecd_type \<Rightarrow> dims_type \<Rightarrow> CDF97 \<Rightarrow> RTNType \<times> CDF97" where
  "take_data buf dims st =
     (if length buf \<noteq> volume dims then (WrongDims, st)
      else (Good, \<lparr>m_data_buf = buf, m_dims = dims,
                   m_qcc_buf = replicate (2 * max_col dims) 0, m_slice_buf = []\<rparr>))"

text \<open>
  Modelled from the spec: the body of \<open>CDF97::copy_data\<close> is missing. The description of
  ingest-copy: given a typed source pointer, a length and a shape, it verifies
  \<open>len = dx \<cdot> dy \<cdot> dz\<close>, sizes the owned buffer accordingly, value-converts each source
  sample to double and resets scratch; a length mismatch surfaces \<open>WrongDims\<close>. The
  pointer is the function \<open>src\<close> from offsets to samples of the source type, and
  \<open>to_double\<close> is the value conversion of that type.
\<close>

definition copy_data ::
  "('a \<Rightarrow> real) \<Rightarrow> (nat \<Rightarrow> 'a) \<Rightarrow> size_t \<Rightarrow> dims_type \<Rightarrow> CDF97 \<Rightarrow> RTNType \<times> CDF97" where
  "copy_data to_double src len dims st =
     (if unat len \<noteq> volume dims then (WrongDims, st)
      else (Good, \<lparr>m_data_buf = map (\<lambda>i. to_double (src i)) [0..<unat len], m_dims = dims,
                   m_qcc_buf = replicate (2 * max_col dims) 0, m_slice_buf = []\<rparr>))"

text \<open>
  Modelled from the spec: the body of \<open>CDF97::view_data\<close> is missing. View returns the
  current buffer.
\<close>

definition view_data :: "CDF97 \<Rightarrow> vecd_type" where
  "view_data st = m_data_buf st"

text \<open>
  Modelled from the spec: the body of \<open>CDF97::get_dims\<close> is missing. Get-shape returns the
  current \<open>(dx, dy, dz)\<close>.
\<close>

definition get_dims :: "CDF97 \<Rightarrow> dims_type" where
  "get_dims st = m_dims st"

subsection \<open>Gather and scatter\<close>

text \<open>
  Modelled from the spec: the bodies of the gather operations are missing. Gather produces a destination range of the length
  of the source range in which the even-indexed source elements appear, in their relative
  order, in the positions \<open>[0, \<lceil>n/2\<rceil>)\<close>, followed by the odd-indexed source elements in
  the positions \<open>[\<lceil>n/2\<rceil>, n)\<close>. Here the split point is a parameter, and the result is the
  destination range.
\<close>

definition gather_at :: "nat \<Rightarrow> 'a list \<Rightarrow> 'a list" where
  "gather_at low_count src =
     map (\<lambda>i. src ! (2 * i)) [0..<low_count] @
     map (\<lambda>i. src ! (2 * i + 1)) [0..<length src - low_count]"

text \<open>
  Modelled from the spec: the body of \<open>CDF97::m_gather_even\<close> is missing. The variant for
  an even length: the two variants differ only by the split point, here \<open>n / 2\<close>.
\<close>

definition m_gather_even :: "'a list \<Rightarrow> 'a list" where
  "m_gather_even src = gather_at (length src div 2) src"

text \<open>
  Modelled from the spec: the body of \<open>CDF97::m_gather_odd\<close> is missing. The variant for
  an odd length, with the split point \<open>n / 2 + 1\<close>.
\<close>

definition m_gather_odd :: "'a list \<Rightarrow> 'a list" where
  "m_gather_odd src = gather_at (length src div 2 + 1) src"

text \<open>
  Modelled from the spec: gather as the passes use it, the variant of the length's parity.
\<close>

definition gather :: "'a list \<Rightarrow> 'a list" where
  "gather src = (if even (length src) then m_gather_even src else m_gather_odd src)"

text \<open>
  Modelled from the spec: the bodies of the scatter operations are missing. Scatter is
  described as the inverse of gather: the positions \<open>[0, \<lceil>n/2\<rceil>)\<close> become the even indices
  and the positions \<open>[\<lceil>n/2\<rceil>, n)\<close> the odd indices. Here the split point is a parameter.
\<close>

definition scatter_at :: "nat \<Rightarrow> 'a list \<Rightarrow> 'a list" where
  "scatter_at low_count src =
     map (\<lambda>j. if even j then src ! (j div 2) else src ! (low_count + j div 2))
       [0..<length src]"

text \<open>
  Modelled from the spec: the body of \<open>CDF97::m_scatter_even\<close> is missing. The variant
  for an even length, with the split point \<open>n / 2\<close>.
\<close>

definition m_scatter_even :: "'a list \<Rightarrow> 'a list" where
  "m_scatter_even src = scatter_at (length src div 2) src"

text \<open>
  Modelled from the spec: the body of \<open>CDF97::m_scatter_odd\<close> is missing. The variant for
  an odd length, with the split point \<open>n / 2 + 1\<close>.
\<close>

definition m_scatter_odd :: "'a list \<Rightarrow> 'a list" where
  "m_scatter_odd src = scatter_at (length src div 2 + 1) src"

text \<open>
  Modelled from the spec: scatter as the passes use it, the variant of the length's parity.
\<close>

definition scatter :: "'a list \<Rightarrow> 'a list" where
  "scatter src = (if even (length src) then m_scatter_even src else m_scatter_odd src)"


subsection \<open>Lifting kernels\<close>

text \<open>
  Modelled from the spec: the bodies of the four lifting kernels are missing. The stencil
  of the description on odd positions, on an array \<open>s\<close> that is updated in place:
  \<open>s[2i+1] += c \<cdot> (s[2i] + s[2i+2])\<close> over a range of \<open>i\<close>.
\<close>

definition lift_odd_positions :: "real \<Rightarrow> nat list \<Rightarrow> vecd_type \<Rightarrow> vecd_type" where
  "lift_odd_positions c idxs s =
     fold (\<lambda>i s. s[2 * i + 1 := s ! (2 * i + 1) + c * (s ! (2 * i) + s ! (2 * i + 2))]) idxs s"

text \<open>
  Modelled from the spec: the stencil of the description on even positions,
  \<open>s[2i] += c \<cdot> (s[2i-1] + s[2i+1])\<close> over a range of \<open>i\<close>.
\<close>

definition lift_even_positions :: "real \<Rightarrow> nat list \<Rightarrow> vecd_type \<Rightarrow> vecd_type" where
  "lift_even_positions c idxs s =
     fold (\<lambda>i s. s[2 * i := s ! (2 * i) + c * (s ! (2 * i - 1) + s ! (2 * i + 1))]) idxs s"

text \<open>
  Modelled from the spec: the predict step of the even-length kernels, with half-length
  \<open>m = n / 2\<close>: the odd stencil for \<open>i = 0..m-2\<close>, and the last odd sample with the
  mirrored neighbour, \<open>s[n-1] += 2 \<cdot> c \<cdot> s[n-2]\<close>.
\<close>

definition predict_even_length :: "real \<Rightarrow> vecd_type \<Rightarrow> vecd_type" where
  "predict_even_length c s =
     (let n = length s; m = n div 2;
          s1 = lift_odd_positions c [0..<m - 1] s
      in s1[n - 1 := s1 ! (n - 1) + 2 * c * s1 ! (n - 2)])"

text \<open>
  Modelled from the spec: the update step of the even-length kernels:
  \<open>s[0] += 2 \<cdot> c \<cdot> s[1]\<close>, and the even stencil for \<open>i = 1..m-1\<close>.
\<close>

definition update_even_length :: "real \<Rightarrow> vecd_type \<Rightarrow> vecd_type" where
  "update_even_length c s =
     (let m = length s div 2;
          s1 = s[0 := s ! 0 + 2 * c * s ! 1]
      in lift_even_positions c [1..<m] s1)"

text \<open>
  Modelled from the spec: the predict step of the odd-length kernels, with
  \<open>n = 2m + 1\<close>: the odd stencil for \<open>i = 0..m-1\<close>, without a tail correction.
\<close>

definition predict_odd_length :: "real \<Rightarrow> vecd_type \<Rightarrow> vecd_type" where
  "predict_odd_length c s = (let m = length s div 2 in lift_odd_positions c [0..<m] s)"

text \<open>
  Modelled from the spec: the update step of the odd-length kernels:
  \<open>s[0] += 2 \<cdot> c \<cdot> s[1]\<close>, the even stencil for \<open>i = 1..m-1\<close>, and
  \<open>s[2m] += 2 \<cdot> c \<cdot> s[2m-1]\<close>.
\<close>

definition update_odd_length :: "real \<Rightarrow> vecd_type \<Rightarrow> vecd_type" where
  "update_odd_length c s =
     (let m = length s div 2;
          s1 = s[0 := s ! 0 + 2 * c * s ! 1];
          s2 = lift_even_positions c [1..<m] s1
      in s2[2 * m := s2 ! (2 * m) + 2 * c * s2 ! (2 * m - 1)])"

text \<open>
  Modelled from the spec: the scaling step multiplies the even positions by one factor and
  the odd positions by another.
\<close>

definition scale_positions :: "real \<Rightarrow> real \<Rightarrow> vecd_type \<Rightarrow> vecd_type" where
  "scale_positions a b s = map (\<lambda>i. if even i then a * s ! i else b * s ! i) [0..<length s]"

text \<open>
  Modelled from the spec: the body of \<open>QccWAVCDF97AnalysisSymmetricEvenEven\<close> is missing.
  Even-length analysis: predict with \<open>\<alpha>\<close>, update with \<open>\<beta>\<close>, predict with \<open>\<gamma>\<close>, update
  with \<open>\<delta>\<close>, then scale the even positions by \<open>\<epsilon>\<^sup>-\<^sup>1\<close> and the odd positions by \<open>-\<epsilon>\<close>.
\<close>

definition QccWAVCDF97AnalysisSymmetricEvenEven :: "vecd_type \<Rightarrow> vecd_type" where
  "QccWAVCDF97AnalysisSymmetricEvenEven signal =
     scale_positions INV_EPSILON (- EPSILON)
       (update_even_length DELTA (predict_even_length GAMMA
         (update_even_length BETA (predict_even_length ALPHA signal))))"

text \<open>
  Modelled from the spec: the body of \<open>QccWAVCDF97AnalysisSymmetricOddEven\<close> is missing.
  Odd-length analysis: the same five steps with the odd-length stencils.
\<close>

definition QccWAVCDF97AnalysisSymmetricOddEven :: "vecd_type \<Rightarrow> vecd_type" where
  "QccWAVCDF97AnalysisSymmetricOddEven signal =
     scale_positions INV_EPSILON (- EPSILON)
       (update_odd_length DELTA (predict_odd_length GAMMA
         (update_odd_length BETA (predict_odd_length ALPHA signal))))"

text \<open>
  Modelled from the spec: the body of \<open>QccWAVCDF97SynthesisSymmetricEvenEven\<close> is missing.
  Synthesis applies the inverse operations in reverse order: first unscale, the even
  positions by \<open>\<epsilon>\<close> and the odd positions by \<open>-\<epsilon>\<^sup>-\<^sup>1\<close>, then undo \<open>\<delta>\<close>, \<open>\<gamma>\<close>, \<open>\<beta>\<close>, \<open>\<alpha>\<close> with
  the same stencils and negated coefficients.
\<close>

definition QccWAVCDF97SynthesisSymmetricEvenEven :: "vecd_type \<Rightarrow> vecd_type" where
  "QccWAVCDF97SynthesisSymmetricEvenEven signal =
     predict_even_length (- ALPHA) (update_even_length (- BETA)
       (predict_even_length (- GAMMA) (update_even_length (- DELTA)
         (scale_positions EPSILON (- INV_EPSILON) signal))))"

text \<open>
  Modelled from the spec: the body of \<open>QccWAVCDF97SynthesisSymmetricOddEven\<close> is missing.
  The odd-length synthesis, as the even-length one with the odd-length stencils.
\<close>

definition QccWAVCDF97SynthesisSymmetricOddEven :: "vecd_type \<Rightarrow> vecd_type" where
  "QccWAVCDF97SynthesisSymmetricOddEven signal =
     predict_odd_length (- ALPHA) (update_odd_length (- BETA)
       (predict_odd_length (- GAMMA) (update_odd_length (- DELTA)
         (scale_positions EPSILON (- INV_EPSILON) signal))))"

subsection \<open>One level along one run\<close>

text \<open>
  Modelled from the spec: the body of \<open>CDF97::m_dwt1d_one_level\<close> is missing. Analysis of
  a run of length \<open>L \<ge> 2\<close>: the lifting kernel of the run's parity, then gather into
  \<open>[low | high]\<close>; a run with \<open>L < 2\<close> passes through. The argument is the content of the
  run, the result its new content.
\<close>

definition m_dwt1d_one_level :: "vecd_type \<Rightarrow> vecd_type" where
  "m_dwt1d_one_level array =
     (if length array < 2 then array
      else if even (length array) then gather (QccWAVCDF97AnalysisSymmetricEvenEven array)
      else gather (QccWAVCDF97AnalysisSymmetricOddEven array))"

text \<open>
  Modelled from the spec: the body of \<open>CDF97::m_idwt1d_one_level\<close> is missing. Synthesis
  of a run of length \<open>L \<ge> 2\<close>: scatter \<open>[low | high]\<close> back into interleaved form, then the
  synthesis kernel of the run's parity; a run with \<open>L < 2\<close> passes through.
\<close>

definition m_idwt1d_one_level :: "vecd_type \<Rightarrow> vecd_type" where
  "m_idwt1d_one_level array =
     (if length array < 2 then array
      else if even (length array) then QccWAVCDF97SynthesisSymmetricEvenEven (scatter array)
      else QccWAVCDF97SynthesisSymmetricOddEven (scatter array))"

text \<open>
  Modelled from the spec: runs inside the owned buffer. A run starts at an offset and has a
  stride and a length; this is the copy of a run into contiguous scratch.
\<close>

definition read_run :: "vecd_type \<Rightarrow> nat \<Rightarrow> nat \<Rightarrow> nat \<Rightarrow> vecd_type" where
  "read_run buf start stride len = map (\<lambda>i. buf ! (start + i * stride)) [0..<len]"

text \<open>
  Modelled from the spec: the copy of transformed samples back into their run.
\<close>

definition write_run :: "vecd_type \<Rightarrow> nat \<Rightarrow> nat \<Rightarrow> vecd_type \<Rightarrow> vecd_type" where
  "write_run buf start stride vals =
     fold (\<lambda>i b. b[start + i * stride := vals ! i]) [0..<length vals] buf"

text \<open>
  Modelled from the spec: one pass over one run: copy the run out, transform the copy and
  copy it back. The scratch members only hold such copies; they are left as they are.
\<close>

definition xform_run :: "(vecd_type \<Rightarrow> vecd_type) \<Rightarrow> nat \<Rightarrow> nat \<Rightarrow> nat \<Rightarrow> CDF97 \<Rightarrow> CDF97" where
  "xform_run f start stride len st =
     st\<lparr>m_data_buf :=
          write_run (m_data_buf st) start stride (f (read_run (m_data_buf st) start stride len))\<rparr>"


subsection \<open>One level on a plane and on a volume\<close>

text \<open>
  Modelled from the spec: the pass along the rows of a sub-plane of size \<open>(lx, ly)\<close>
  anchored at the origin of a plane with row stride \<open>dx\<close>: every row \<open>y \<in> [0, ly)\<close> for
  \<open>x \<in> [0, lx)\<close>. The plane is given by its offset in the owned buffer.
\<close>

definition rows_pass :: "(vecd_type \<Rightarrow> vecd_type) \<Rightarrow> nat \<Rightarrow> nat \<times> nat \<Rightarrow> CDF97 \<Rightarrow> CDF97" where
  "rows_pass f plane len_xy st =
     (case (len_xy, m_dims st) of ((lx, ly), (dx, dy, dz)) \<Rightarrow>
        fold (\<lambda>y. xform_run f (plane + y * unat dx) 1 lx) [0..<ly] st)"

text \<open>
  Modelled from the spec: the pass along the columns of the sub-plane: every column
  \<open>x \<in> [0, lx)\<close> for \<open>y \<in> [0, ly)\<close>, a run of stride \<open>dx\<close>.
\<close>

definition columns_pass :: "(vecd_type \<Rightarrow> vecd_type) \<Rightarrow> nat \<Rightarrow> nat \<times> nat \<Rightarrow> CDF97 \<Rightarrow> CDF97" where
  "columns_pass f plane len_xy st =
     (case (len_xy, m_dims st) of ((lx, ly), (dx, dy, dz)) \<Rightarrow>
        fold (\<lambda>x. xform_run f (plane + x) (unat dx) ly) [0..<lx] st)"

text \<open>
  Modelled from the spec: the body of \<open>CDF97::m_dwt2d_one_level\<close> is missing. Analysis
  applies the one-level analysis along every row, then along every column.
\<close>

definition m_dwt2d_one_level :: "nat \<Rightarrow> nat \<times> nat \<Rightarrow> CDF97 \<Rightarrow> CDF97" where
  "m_dwt2d_one_level plane len_xy st =
     columns_pass m_dwt1d_one_level plane len_xy (rows_pass m_dwt1d_one_level plane len_xy st)"

text \<open>
  Modelled from the spec: the body of \<open>CDF97::m_idwt2d_one_level\<close> is missing. Synthesis
  reverses the analysis: columns first, then rows.
\<close>

definition m_idwt2d_one_level :: "nat \<Rightarrow> nat \<times> nat \<Rightarrow> CDF97 \<Rightarrow> CDF97" where
  "m_idwt2d_one_level plane len_xy st =
     rows_pass m_idwt1d_one_level plane len_xy (columns_pass m_idwt1d_one_level plane len_xy st)"

text \<open>
  Modelled from the spec: the pass along x of a sub-volume \<open>(lx, ly, lz)\<close> anchored at
  the origin of a volume with strides \<open>(1, dx, dx \<cdot> dy)\<close>.
\<close>

definition x_pass :: "(vecd_type \<Rightarrow> vecd_type) \<Rightarrow> nat \<Rightarrow> nat \<times> nat \<times> nat \<Rightarrow> CDF97 \<Rightarrow> CDF97" where
  "x_pass f vol len_xyz st =
     (case (len_xyz, m_dims st) of ((lx, ly, lz), (dx, dy, dz)) \<Rightarrow>
        fold (\<lambda>z. fold (\<lambda>y. xform_run f (vol + z * unat dx * unat dy + y * unat dx) 1 lx)
                [0..<ly]) [0..<lz] st)"

text \<open>
  Modelled from the spec: the pass along y of the sub-volume, on runs of stride \<open>dx\<close>.
\<close>

definition y_pass :: "(vecd_type \<Rightarrow> vecd_type) \<Rightarrow> nat \<Rightarrow> nat \<times> nat \<times> nat \<Rightarrow> CDF97 \<Rightarrow> CDF97" where
  "y_pass f vol len_xyz st =
     (case (len_xyz, m_dims st) of ((lx, ly, lz), (dx, dy, dz)) \<Rightarrow>
        fold (\<lambda>z. fold (\<lambda>x. xform_run f (vol + z * unat dx * unat dy + x) (unat dx) ly)
                [0..<lx]) [0..<lz] st)"

text \<open>
  Modelled from the spec: the pass along z of the sub-volume, on runs of stride
  \<open>dx \<cdot> dy\<close>.
\<close>

definition z_pass :: "(vecd_type \<Rightarrow> vecd_type) \<Rightarrow> nat \<Rightarrow> nat \<times> nat \<times> nat \<Rightarrow> CDF97 \<Rightarrow> CDF97" where
  "z_pass f vol len_xyz st =
     (case (len_xyz, m_dims st) of ((lx, ly, lz), (dx, dy, dz)) \<Rightarrow>
        fold (\<lambda>y. fold (\<lambda>x. xform_run f (vol + y * unat dx + x) (unat dx * unat dy) lz)
                [0..<lx]) [0..<ly] st)"

text \<open>
  Modelled from the spec: the body of \<open>CDF97::m_dwt3d_one_level\<close> is missing. Analysis
  applies the one-level analysis along x, then y, then z.
\<close>

definition m_dwt3d_one_level :: "nat \<Rightarrow> nat \<times> nat \<times> nat \<Rightarrow> CDF97 \<Rightarrow> CDF97" where
  "m_dwt3d_one_level vol len_xyz st =
     z_pass m_dwt1d_one_level vol len_xyz
       (y_pass m_dwt1d_one_level vol len_xyz (x_pass m_dwt1d_one_level vol len_xyz st))"

text \<open>
  Modelled from the spec: the body of \<open>CDF97::m_idwt3d_one_level\<close> is missing. Synthesis
  reverses the analysis: z, then y, then x.
\<close>

definition m_idwt3d_one_level :: "nat \<Rightarrow> nat \<times> nat \<times> nat \<Rightarrow> CDF97 \<Rightarrow> CDF97" where
  "m_idwt3d_one_level vol len_xyz st =
     x_pass m_idwt1d_one_level vol len_xyz
       (y_pass m_idwt1d_one_level vol len_xyz (z_pass m_idwt1d_one_level vol len_xyz st))"

subsection \<open>Level drivers\<close>

text \<open>
  Modelled from the spec: the length of an axis at a level, \<open>L\<^sub>0 = L\<close> and
  \<open>L\<^sub>k\<^sub>+\<^sub>1 = \<lceil>L\<^sub>k / 2\<rceil>\<close>, is the low-pass length that \<open>calc_approx_detail_len\<close> returns.
\<close>

definition level_len :: "size_t \<Rightarrow> nat \<Rightarrow> nat" where
  "level_len len lev = unat (fst (calc_approx_detail_len len (word_of_nat lev)))"

text \<open>
  Modelled from the spec: the body of \<open>CDF97::m_dwt1d\<close> is missing. The given number of
  levels along one array, level \<open>k\<close> on the prefix of length \<open>L\<^sub>k\<close>.
\<close>

definition m_dwt1d :: "nat \<Rightarrow> size_t \<Rightarrow> size_t \<Rightarrow> CDF97 \<Rightarrow> CDF97" where
  "m_dwt1d array array_len num st =
     fold (\<lambda>lev. xform_run m_dwt1d_one_level array 1 (level_len array_len lev))
       [0..<unat num] st"

text \<open>
  Modelled from the spec: the body of \<open>CDF97::m_idwt1d\<close> is missing. Synthesis iterates
  the schedule of the analysis in reverse order.
\<close>

definition m_idwt1d :: "nat \<Rightarrow> size_t \<Rightarrow> size_t \<Rightarrow> CDF97 \<Rightarrow> CDF97" where
  "m_idwt1d array array_len num st =
     fold (\<lambda>lev. xform_run m_idwt1d_one_level array 1 (level_len array_len lev))
       (rev [0..<unat num]) st"

text \<open>
  Modelled from the spec: the body of \<open>CDF97::m_dwt2d\<close> is missing. The given number of
  levels on a plane, level \<open>k\<close> on the low-pass corner \<open>(lx\<^sub>k, ly\<^sub>k)\<close>.
\<close>

definition m_dwt2d :: "nat \<Rightarrow> size_t \<times> size_t \<Rightarrow> size_t \<Rightarrow> CDF97 \<Rightarrow> CDF97" where
  "m_dwt2d plane len_xy num st =
     (case len_xy of (len_x, len_y) \<Rightarrow>
        fold (\<lambda>lev. m_dwt2d_one_level plane (level_len len_x lev, level_len len_y lev))
          [0..<unat num] st)"

text \<open>
  Modelled from the spec: the body of \<open>CDF97::m_idwt2d\<close> is missing. Synthesis iterates
  the schedule of the analysis in reverse order.
\<close>

definition m_idwt2d :: "nat \<Rightarrow> size_t \<times> size_t \<Rightarrow> size_t \<Rightarrow> CDF97 \<Rightarrow> CDF97" where
  "m_idwt2d plane len_xy num st =
     (case len_xy of (len_x, len_y) \<Rightarrow>
        fold (\<lambda>lev. m_idwt2d_one_level plane (level_len len_x lev, level_len len_y lev))
          (rev [0..<unat num]) st)"

text \<open>
  Modelled from the spec: the body of \<open>CDF97::dwt1d\<close> is missing. One axis only,
  \<open>f(dx)\<close> levels, where \<open>f\<close> is \<open>num_of_xforms\<close>; its failed assertion ends the call
  without a result.
\<close>

definition dwt1d :: "CDF97 \<Rightarrow> CDF97 option" where
  "dwt1d st =
     (case m_dims st of (dx, dy, dz) \<Rightarrow>
        (case num_of_xforms dx of
           None \<Rightarrow> None
         | Some kx \<Rightarrow> Some (m_dwt1d 0 dx kx st)))"

text \<open>
  Modelled from the spec: the body of \<open>CDF97::idwt1d\<close> is missing. The inverse 1D
  multi-level transform, with the level count of the forward one.
\<close>

definition idwt1d :: "CDF97 \<Rightarrow> CDF97 option" where
  "idwt1d st =
     (case m_dims st of (dx, dy, dz) \<Rightarrow>
        (case num_of_xforms dx of
           None \<Rightarrow> None
         | Some kx \<Rightarrow> Some (m_idwt1d 0 dx kx st)))"

text \<open>
  Modelled from the spec: the body of \<open>CDF97::dwt2d\<close> is missing.
  \<open>K = min(f(dx), f(dy))\<close> levels on the shared low-pass corner.
\<close>

definition dwt2d :: "CDF97 \<Rightarrow> CDF97 option" where
  "dwt2d st =
     (case m_dims st of (dx, dy, dz) \<Rightarrow>
        (case (num_of_xforms dx, num_of_xforms dy) of
           (Some kx, Some ky) \<Rightarrow> Some (m_dwt2d 0 (dx, dy) (min kx ky) st)
         | _ \<Rightarrow> None))"

text \<open>
  Modelled from the spec: the body of \<open>CDF97::idwt2d\<close> is missing. The inverse 2D
  multi-level transform, with the level count of the forward one.
\<close>

definition idwt2d :: "CDF97 \<Rightarrow> CDF97 option" where
  "idwt2d st =
     (case m_dims st of (dx, dy, dz) \<Rightarrow>
        (case (num_of_xforms dx, num_of_xforms dy) of
           (Some kx, Some ky) \<Rightarrow> Some (m_idwt2d 0 (dx, dy) (min kx ky) st)
         | _ \<Rightarrow> None))"

text \<open>
  Modelled from the spec: the body of \<open>CDF97::dwt3d_dyadic\<close> is missing.
  \<open>K = min(f(dx), f(dy), f(dz))\<close> levels, each a 3D one-level pass on the common low-pass
  corner \<open>(lx\<^sub>k, ly\<^sub>k, lz\<^sub>k)\<close>.
\<close>

definition dwt3d_dyadic :: "CDF97 \<Rightarrow> CDF97 option" where
  "dwt3d_dyadic st =
     (case m_dims st of (dx, dy, dz) \<Rightarrow>
        (case (num_of_xforms dx, num_of_xforms dy, num_of_xforms dz) of
           (Some kx, Some ky, Some kz) \<Rightarrow>
             Some (fold (\<lambda>lev. m_dwt3d_one_level 0
                            (level_len dx lev, level_len dy lev, level_len dz lev))
                     [0..<unat (min (min kx ky) kz)] st)
         | _ \<Rightarrow> None))"

text \<open>
  Modelled from the spec: the body of \<open>CDF97::idwt3d_dyadic\<close> is missing. The schedule of
  the dyadic analysis in reverse order, with synthesis passes.
\<close>

definition idwt3d_dyadic :: "CDF97 \<Rightarrow> CDF97 option" where
  "idwt3d_dyadic st =
     (case m_dims st of (dx, dy, dz) \<Rightarrow>
        (case (num_of_xforms dx, num_of_xforms dy, num_of_xforms dz) of
           (Some kx, Some ky, Some kz) \<Rightarrow>
             Some (fold (\<lambda>lev. m_idwt3d_one_level 0
                            (level_len dx lev, level_len dy lev, level_len dz lev))
                     (rev [0..<unat (min (min kx ky) kz)]) st)
         | _ \<Rightarrow> None))"

text \<open>
  Modelled from the spec: at a wavelet-packet level only the axes whose current length
  exceeds 1 are transformed: the guard of one axis pass.
\<close>

definition packet_axis ::
  "((vecd_type \<Rightarrow> vecd_type) \<Rightarrow> nat \<Rightarrow> nat \<times> nat \<times> nat \<Rightarrow> CDF97 \<Rightarrow> CDF97) \<Rightarrow>
   (vecd_type \<Rightarrow> vecd_type) \<Rightarrow> nat \<Rightarrow> nat \<times> nat \<times> nat \<Rightarrow> CDF97 \<Rightarrow> CDF97" where
  "packet_axis pass f l len_xyz st = (if 1 < l then pass f 0 len_xyz st else st)"

text \<open>
  Modelled from the spec: one wavelet-packet analysis level on the corner \<open>(lx, ly, lz)\<close>,
  along x, then y, then z.
\<close>

definition dwt3d_packet_level :: "nat \<times> nat \<times> nat \<Rightarrow> CDF97 \<Rightarrow> CDF97" where
  "dwt3d_packet_level len_xyz st =
     (case len_xyz of (lx, ly, lz) \<Rightarrow>
        packet_axis z_pass m_dwt1d_one_level lz len_xyz
          (packet_axis y_pass m_dwt1d_one_level ly len_xyz
            (packet_axis x_pass m_dwt1d_one_level lx len_xyz st)))"

text \<open>
  Modelled from the spec: one wavelet-packet synthesis level, the axes in reverse order.
\<close>

definition idwt3d_packet_level :: "nat \<times> nat \<times> nat \<Rightarrow> CDF97 \<Rightarrow> CDF97" where
  "idwt3d_packet_level len_xyz st =
     (case len_xyz of (lx, ly, lz) \<Rightarrow>
        packet_axis x_pass m_idwt1d_one_level lx len_xyz
          (packet_axis y_pass m_idwt1d_one_level ly len_xyz
            (packet_axis z_pass m_idwt1d_one_level lz len_xyz st)))"

text \<open>
  Modelled from the spec: the plane scratch is allocated by the first wavelet-packet call,
  to \<open>dx \<cdot> dy\<close> doubles.
\<close>

definition alloc_slice_buf :: "CDF97 \<Rightarrow> CDF97" where
  "alloc_slice_buf st =
     (case m_dims st of (dx, dy, dz) \<Rightarrow>
        if length (m_slice_buf st) < unat dx * unat dy
        then st\<lparr>m_slice_buf := replicate (unat dx * unat dy) 0\<rparr>
        else st)"

text \<open>
  Modelled from the spec: the body of \<open>CDF97::dwt3d_wavelet_packet\<close> is missing. \<open>K\<close> is
  the maximum of \<open>num_of_partitions\<close> over the three axes; a loop of
  \<open>num_of_partitions\<close> that does not end leaves the call without a result.
\<close>

definition dwt3d_wavelet_packet :: "CDF97 \<Rightarrow> CDF97 option" where
  "dwt3d_wavelet_packet st =
     (case m_dims st of (dx, dy, dz) \<Rightarrow>
        (case (num_of_partitions dx, num_of_partitions dy, num_of_partitions dz) of
           (Some px, Some py, Some pz) \<Rightarrow>
             Some (fold (\<lambda>lev. dwt3d_packet_level
                            (level_len dx lev, level_len dy lev, level_len dz lev))
                     [0..<unat (max (max px py) pz)] (alloc_slice_buf st))
         | _ \<Rightarrow> None))"

text \<open>
  Modelled from the spec: the body of \<open>CDF97::idwt3d_wavelet_packet\<close> is missing. The
  schedule of the wavelet-packet analysis in reverse order, with synthesis levels.
\<close>

definition idwt3d_wavelet_packet :: "CDF97 \<Rightarrow> CDF97 option" where
  "idwt3d_wavelet_packet st =
     (case m_dims st of (dx, dy, dz) \<Rightarrow>
        (case (num_of_partitions dx, num_of_partitions dy, num_of_partitions dz) of
           (Some px, Some py, Some pz) \<Rightarrow>
             Some (fold (\<lambda>lev. idwt3d_packet_level
                            (level_len dx lev, level_len dy lev, level_len dz lev))
                     (rev [0..<unat (max (max px py) pz)]) (alloc_slice_buf st))
         | _ \<Rightarrow> None))"

subsection \<open>Sequences of transform calls\<close>

text \<open>
  Modelled from the spec: the eight transform operations that the interface presents to
  its callers.
\<close>

datatype xform =
    Dwt1d
  | Idwt1d
  | Dwt2d
  | Idwt2d
  | Dwt3d_wavelet_packet
  | Idwt3d_wavelet_packet
  | Dwt3d_dyadic
  | Idwt3d_dyadic

text \<open>
  Modelled from the spec: one call of a transform operation on the object.
\<close>

fun apply_xform :: "xform \<Rightarrow> CDF97 \<Rightarrow> CDF97 option" where
  "apply_xform Dwt1d st = dwt1d st"
| "apply_xform Idwt1d st = idwt1d st"
| "apply_xform Dwt2d st = dwt2d st"
| "apply_xform Idwt2d st = idwt2d st"
| "apply_xform Dwt3d_wavelet_packet st = dwt3d_wavelet_packet st"
| "apply_xform Idwt3d_wavelet_packet st = idwt3d_wavelet_packet st"
| "apply_xform Dwt3d_dyadic st = dwt3d_dyadic st"
| "apply_xform Idwt3d_dyadic st = idwt3d_dyadic st"

text \<open>
  Modelled from the spec: a caller that invokes the operations one after the other on one
  object; a call without a result ends the sequence.
\<close>

fun run_xforms :: "xform list \<Rightarrow> CDF97 \<Rightarrow> CDF97 option" where
  "run_xforms [] st = Some st"
| "run_xforms (x # xs) st =
     (case apply_xform x st of None \<Rightarrow> None | Some st' \<Rightarrow> run_xforms xs st')"


subsection \<open>Shapes\<close>

text \<open>
  Modelled from the spec: what a caller can observe of the extent of a loaded volume, the
  length of the owned buffer and the shape.
\<close>

definition shape :: "CDF97 \<Rightarrow> nat \<times> dims_type" where
  "shape st = (length (m_data_buf st), m_dims st)"

text \<open>
  Modelled from the spec: a shape is a triple of positive sizes.
\<close>

definition valid_shape :: "dims_type \<Rightarrow> bool" where
  "valid_shape dims = (case dims of (dx, dy, dz) \<Rightarrow> 0 < dx \<and> 0 < dy \<and> 0 < dz)"


section \<open>Properties of the length bookkeeping\<close>

subsection \<open>The recurrence on natural numbers\<close>

lemma size_t_succ: "i < lev \<Longrightarrow> unat (i + 1 :: size_t) = unat i + 1"
  by (metis add_cancel_left_left inc_i linorder_le_less_linear olen_add_eqv
      unat_plus_simple unsigned_0 unsigned_1 word_less_1)

lemma approx_len_shift: "approx_len L (Suc n) = approx_len (L - L div 2) n"
  by (induction n) simp_all

lemma detail_len_shift: "detail_len L (Suc (Suc n)) = detail_len (L - L div 2) (Suc n)"
  using approx_len_shift [of L n] by simp

lemma approx_len_le: "approx_len L n \<le> L"
  by (induction n) (simp_all add: le_diff_conv trans_le_add1)

lemma approx_len_ge1: "1 \<le> L \<Longrightarrow> 1 \<le> approx_len L n"
proof (induction n)
  case 0
  then show ?case by simp
next
  case (Suc n)
  then have "1 \<le> approx_len L n" by simp
  then show ?case by simp
qed

lemma approx_len_bound: "approx_len L n \<le> max 1 (L - n)"
proof (induction n)
  case 0
  show ?case by simp
next
  case (Suc n)
  then show ?case by simp
qed

lemma approx_len_one: "approx_len (Suc 0) n = Suc 0"
  by (induction n) simp_all

lemma approx_len_ceil: "approx_len L (Suc n) = (approx_len L n + 1) div 2"
  by simp

lemma halvings_exists: "approx_len L L \<le> 1"
  using approx_len_bound [of L L] by simp

lemma halvings_le: "halvings_until_one L \<le> L"
  unfolding halvings_until_one_def by (rule Least_le) (rule halvings_exists)

lemma halvings_reached: "approx_len L (halvings_until_one L) \<le> 1"
  unfolding halvings_until_one_def by (rule LeastI) (rule halvings_exists)

lemma halvings_small: "L \<le> 1 \<Longrightarrow> halvings_until_one L = 0"
  unfolding halvings_until_one_def by (rule Least_equality) simp_all

lemma halvings_step: "1 < L \<Longrightarrow> halvings_until_one L = Suc (halvings_until_one (L - L div 2))"
proof -
  assume "1 < L"
  then have "\<not> approx_len L 0 \<le> 1" by simp
  with halvings_exists [of L]
  have "(LEAST n. approx_len L n \<le> 1) = Suc (LEAST m. approx_len L (Suc m) \<le> 1)"
    by (rule Least_Suc)
  then show ?thesis
    by (simp only: halvings_until_one_def approx_len_shift)
qed

subsection \<open>The loops on machine integers\<close>

text \<open>
  No step of the two loops wraps around: \<open>len / 2\<close> never exceeds \<open>len\<close>, so the
  subtraction stays within the unsigned range, and the counters stay below the loop bounds.
\<close>

lemma halve_unat: "unat (w - w div 2 :: size_t) = unat w - unat w div 2"
proof -
  have "w div 2 \<le> w"
    by (simp add: word_le_nat_alt unat_div)
  then show ?thesis
    by (simp add: unat_sub unat_div)
qed

lemma half_of_nat: "word_of_nat (unat w div 2) = (w div 2 :: size_t)"
proof -
  have "unat (w div 2) = unat w div 2"
    by (simp add: unat_div)
  then have "word_of_nat (unat w div 2) = (word_of_nat (unat (w div 2)) :: size_t)"
    by simp
  then show ?thesis
    by simp
qed

lemma num_of_partitions_loop_eq:
  "num_of_partitions_loop len num = Some (num + word_of_nat (halvings_until_one (unat len)))"
proof (induction "unat len" arbitrary: len num rule: less_induct)
  case less
  show ?case
  proof (cases "1 < len")
    case True
    then have big: "1 < unat len"
      by (simp add: word_less_nat_alt)
    then have "unat (len - len div 2) < unat len"
      by (simp add: halve_unat)
    then have "num_of_partitions_loop (len - len div 2) (num + 1)
        = Some (num + 1 + word_of_nat (halvings_until_one (unat (len - len div 2))))"
      by (rule less)
    with True big show ?thesis
      by (subst num_of_partitions_loop.simps) (simp add: halve_unat halvings_step)
  next
    case False
    then have "unat len \<le> 1"
      by (simp add: word_less_nat_alt)
    with False show ?thesis
      by (subst num_of_partitions_loop.simps) (simp add: halvings_small)
  qed
qed

lemma calc_approx_detail_len_loop_eq:
  "i \<le> lev \<Longrightarrow>
   calc_approx_detail_len_loop i lev low_len high_len =
     (word_of_nat (approx_len (unat low_len) (unat lev - unat i)),
      if i = lev then high_len
      else word_of_nat (detail_len (unat low_len) (unat lev - unat i)))"
proof (induction i lev low_len high_len rule: calc_approx_detail_len_loop.induct)
  case (1 i lev low_len high_len)
  show ?case
  proof (cases "i < lev")
    case False
    with "1.prems" have "i = lev" by simp
    then show ?thesis
      by (subst calc_approx_detail_len_loop.simps) simp
  next
    case True
    define m where "m = unat lev - unat (i + 1)"
    from True have succ: "unat (i + 1) = unat i + 1"
      by (rule size_t_succ)
    from True have "unat i < unat lev"
      by (simp add: word_less_nat_alt)
    with succ have steps: "unat lev - unat i = Suc m"
      by (simp add: m_def)
    from True have next_le: "i + 1 \<le> lev"
      by (simp add: inc_le)
    have last: "i + 1 = lev \<longleftrightarrow> m = 0"
      using next_le by (auto simp: m_def word_le_nat_alt word_unat_eq_iff)
    have "calc_approx_detail_len_loop i lev low_len high_len =
        calc_approx_detail_len_loop (i + 1) lev (low_len - low_len div 2) (low_len div 2)"
      using True by (subst calc_approx_detail_len_loop.simps) (simp add: Let_def)
    also have "\<dots> =
        (word_of_nat (approx_len (unat (low_len - low_len div 2)) m),
         if i + 1 = lev then low_len div 2
         else word_of_nat (detail_len (unat (low_len - low_len div 2)) m))"
      unfolding m_def using True next_le by (intro "1.IH") simp_all
    also have "\<dots> =
        (word_of_nat (approx_len (unat low_len) (Suc m)),
         word_of_nat (detail_len (unat low_len) (Suc m)))"
    proof (cases m)
      case 0
      with last show ?thesis
        by (simp add: halve_unat half_of_nat)
    next
      case (Suc m')
      with last show ?thesis
        by (simp only: approx_len_shift detail_len_shift halve_unat) simp
    qed
    finally show ?thesis
      using True steps by auto
  qed
qed

lemma detail_len_le: "detail_len L n \<le> L"
  using approx_len_le [of L "n - 1"] by (cases n) simp_all

lemma unat_calc_approx_detail_len:
  "unat (fst (calc_approx_detail_len L k)) = approx_len (unat L) (unat k)"
  "unat (snd (calc_approx_detail_len L k)) = detail_len (unat L) (unat k)"
proof -
  have bound: "unat L < 2 ^ 64"
    using unsigned_less [of L, where ?'a = nat] by simp
  have a: "approx_len (unat L) (unat k) < 2 ^ 64"
    using approx_len_le [of "unat L" "unat k"] bound by simp
  have d: "detail_len (unat L) (unat k) < 2 ^ 64"
    using detail_len_le [of "unat L" "unat k"] bound by simp
  have eq: "calc_approx_detail_len L k =
      (word_of_nat (approx_len (unat L) (unat k)),
       if 0 = k then 0 else word_of_nat (detail_len (unat L) (unat k)))"
    unfolding calc_approx_detail_len_def
    by (subst calc_approx_detail_len_loop_eq) simp_all
  from a show "unat (fst (calc_approx_detail_len L k)) = approx_len (unat L) (unat k)"
    by (simp add: eq unat_of_nat)
  from d show "unat (snd (calc_approx_detail_len L k)) = detail_len (unat L) (unat k)"
    by (auto simp: eq unat_of_nat)
qed

lemma unat_num_of_partitions:
  "\<exists>n. num_of_partitions L = Some n \<and> unat n = halvings_until_one (unat L)"
proof -
  have "unat L < 2 ^ 64"
    using unsigned_less [of L, where ?'a = nat] by simp
  with halvings_le [of "unat L"] have "halvings_until_one (unat L) < 2 ^ 64"
    by simp
  then show ?thesis
    by (simp add: num_of_partitions_def num_of_partitions_loop_eq unat_of_nat)
qed


subsection \<open>Rounding\<close>

lemma ceil_half: "\<lceil>real n / 2\<rceil> = int ((n + 1) div 2)"
  by linarith

lemma floor_half: "\<lfloor>real n / 2\<rfloor> = int (n div 2)"
  by linarith

subsection \<open>The claims about the level arithmetic\<close>

text \<open>
  Claim C3. For every original axis length \<open>L\<close> and every level count \<open>k\<close>,
  \<open>calc_approx_detail_len L k\<close> returns the pair \<open>(a\<^sub>k, d\<^sub>k)\<close> of the recurrence
  \<open>a\<^sub>0 = L\<close>, \<open>d\<^sub>0 = 0\<close>, \<open>d\<^sub>i\<^sub>+\<^sub>1 = \<lfloor>a\<^sub>i / 2\<rfloor>\<close>,
  \<open>a\<^sub>i\<^sub>+\<^sub>1 = a\<^sub>i - d\<^sub>i\<^sub>+\<^sub>1 = \<lceil>a\<^sub>i / 2\<rceil>\<close>; after one level an axis of length \<open>L\<close>
  splits into a low-pass prefix of length \<open>\<lceil>L / 2\<rceil>\<close> and a high-pass suffix of length
  \<open>\<lfloor>L / 2\<rfloor>\<close>. The lengths are read from the machine words with \<open>unat\<close>.
\<close>

theorem calc_approx_detail_len_recurrence:
  "unat (fst (calc_approx_detail_len L k)) = approx_len (unat L) (unat k) \<and>
   unat (snd (calc_approx_detail_len L k)) = detail_len (unat L) (unat k) \<and>
   approx_len (unat L) 0 = unat L \<and>
   detail_len (unat L) 0 = 0 \<and>
   int (detail_len (unat L) (Suc i)) = \<lfloor>real (approx_len (unat L) i) / 2\<rfloor> \<and>
   approx_len (unat L) (Suc i) = approx_len (unat L) i - detail_len (unat L) (Suc i) \<and>
   int (approx_len (unat L) (Suc i)) = \<lceil>real (approx_len (unat L) i) / 2\<rceil> \<and>
   int (unat (fst (calc_approx_detail_len L 1))) = \<lceil>real (unat L) / 2\<rceil> \<and>
   int (unat (snd (calc_approx_detail_len L 1))) = \<lfloor>real (unat L) / 2\<rfloor>"
proof -
  have "int (approx_len (unat L) (Suc i)) = \<lceil>real (approx_len (unat L) i) / 2\<rceil>"
    by (simp only: ceil_half approx_len_ceil)
  moreover have "unat (fst (calc_approx_detail_len L 1)) = (unat L + 1) div 2"
    using approx_len_ceil [of "unat L" 0] by (simp add: unat_calc_approx_detail_len)
  then have "int (unat (fst (calc_approx_detail_len L 1))) = \<lceil>real (unat L) / 2\<rceil>"
    by (simp only: ceil_half)
  moreover have "unat (snd (calc_approx_detail_len L 1)) = unat L div 2"
    by (simp add: unat_calc_approx_detail_len)
  then have "int (unat (snd (calc_approx_detail_len L 1))) = \<lfloor>real (unat L) / 2\<rfloor>"
    by (simp only: floor_half)
  ultimately show ?thesis
    by (simp add: unat_calc_approx_detail_len floor_half)
qed

text \<open>
  Claim C4. For every axis length \<open>L\<close>, \<open>num_of_partitions L\<close> returns the number of
  iterations of the step \<open>L \<leftarrow> L - \<lfloor>L / 2\<rfloor>\<close> needed until \<open>L \<le> 1\<close>: after that many
  steps the length is at most 1, after fewer steps it is still above 1. In particular the
  result is 0 for \<open>L \<le> 1\<close>.
\<close>

theorem num_of_partitions_counts_halvings:
  "(\<exists>n. num_of_partitions L = Some n \<and> unat n = halvings_until_one (unat L)) \<and>
   approx_len (unat L) (halvings_until_one (unat L)) \<le> 1 \<and>
   (\<forall>m<halvings_until_one (unat L). 1 < approx_len (unat L) m) \<and>
   (L \<le> 1 \<longrightarrow> num_of_partitions L = Some 0)"
proof -
  have "1 < approx_len (unat L) m" if "m < halvings_until_one (unat L)" for m
    using that not_less_Least [of m "\<lambda>n. approx_len (unat L) n \<le> 1"]
    by (simp add: halvings_until_one_def)
  moreover have "num_of_partitions L = Some 0" if "L \<le> 1"
  proof -
    from that have "unat L \<le> 1"
      by (simp add: word_le_nat_alt)
    then show ?thesis
      by (simp add: num_of_partitions_def num_of_partitions_loop_eq halvings_small)
  qed
  ultimately show ?thesis
    using unat_num_of_partitions [of L] halvings_reached [of "unat L"] by blast
qed

theorem num_of_partitions_counts_halvings_witness:
  "(1 :: size_t) \<le> 1 \<and> num_of_partitions 1 = Some 0 \<and>
   (\<exists>n. num_of_partitions 5 = Some n \<and> unat n = halvings_until_one (unat (5 :: size_t))) \<and>
   num_of_partitions 5 = Some 3"
proof -
  have "num_of_partitions 5 = Some 3"
    by code_simp
  then show ?thesis
    using num_of_partitions_counts_halvings [of 1] num_of_partitions_counts_halvings [of 5]
    by simp
qed

text \<open>
  Claim C9. \<open>num_of_partitions\<close> terminates for every \<open>size_t\<close> input: the loop, whose
  non-termination would be the value \<open>None\<close>, returns a number. For the inputs 0 and 1
  it returns 0, and whenever the guard \<open>len > 1\<close> holds the step strictly decreases
  \<open>len\<close> in the unsigned order.
\<close>

theorem num_of_partitions_terminates:
  "(\<exists>n. num_of_partitions len = Some n) \<and>
   num_of_partitions 0 = Some 0 \<and>
   num_of_partitions 1 = Some 0 \<and>
   (1 < len \<longrightarrow> len - len div 2 < len)"
proof -
  have "len - len div 2 < len" if "1 < len"
  proof -
    from that have "1 < unat len"
      by (simp add: word_less_nat_alt)
    then show ?thesis
      by (simp add: word_less_nat_alt halve_unat)
  qed
  moreover have "num_of_partitions 0 = Some 0" "num_of_partitions 1 = Some 0"
    by (simp_all add: num_of_partitions_def num_of_partitions_loop_eq halvings_small)
  ultimately show ?thesis
    by (simp add: num_of_partitions_def num_of_partitions_loop_eq)
qed

theorem num_of_partitions_terminates_witness:
  "(1 :: size_t) < 5 \<and> 5 - 5 div 2 < (5 :: size_t) \<and> (\<exists>n. num_of_partitions 5 = Some n)"
  using num_of_partitions_terminates [of 5] by simp

text \<open>
  Claim C10. For every axis length \<open>L \<ge> 1\<close>: zero levels return \<open>(L, 0)\<close>; the low-pass
  length returned for any level count \<open>k\<close> is at least 1; after exactly
  \<open>num_of_partitions L\<close> levels the low-pass length is 1, that is, it is 1 after that many
  levels and still above 1 after any smaller number of levels; and length 1 is a fixed
  point, \<open>calc_approx_detail_len 1 k = (1, 0)\<close> for every \<open>k\<close>.
\<close>

theorem calc_approx_detail_len_low_pass:
  assumes "1 \<le> L"
  shows "calc_approx_detail_len L 0 = (L, 0) \<and>
         1 \<le> fst (calc_approx_detail_len L k) \<and>
         (\<exists>n. num_of_partitions L = Some n \<and>
              fst (calc_approx_detail_len L n) = 1 \<and>
              (\<forall>m. m < n \<longrightarrow> 1 < fst (calc_approx_detail_len L m))) \<and>
         calc_approx_detail_len 1 k = (1, 0)"
proof -
  from assms have pos: "1 \<le> unat L"
    by (simp add: word_le_nat_alt)
  have zero: "calc_approx_detail_len L 0 = (L, 0)"
    unfolding calc_approx_detail_len_def
    by (subst calc_approx_detail_len_loop.simps) simp
  have "1 \<le> approx_len (unat L) (unat k)"
    using pos by (rule approx_len_ge1)
  then have low: "1 \<le> fst (calc_approx_detail_len L k)"
    by (simp add: word_le_nat_alt unat_calc_approx_detail_len)
  obtain n where n: "num_of_partitions L = Some n" "unat n = halvings_until_one (unat L)"
    using unat_num_of_partitions [of L] by blast
  have "approx_len (unat L) (unat n) = 1"
    using approx_len_ge1 [OF pos, of "unat n"] halvings_reached [of "unat L"] n(2) by simp
  then have at_n: "fst (calc_approx_detail_len L n) = 1"
    by (simp add: word_unat_eq_iff unat_calc_approx_detail_len)
  have before: "1 < fst (calc_approx_detail_len L m)" if "m < n" for m
  proof -
    from that have "unat m < halvings_until_one (unat L)"
      by (simp add: word_less_nat_alt n(2))
    then have "\<not> approx_len (unat L) (unat m) \<le> 1"
      unfolding halvings_until_one_def by (rule not_less_Least)
    then have "1 < approx_len (unat L) (unat m)"
      by simp
    then show ?thesis
      by (simp add: word_less_nat_alt unat_calc_approx_detail_len)
  qed
  from n(1) at_n before
  have reach: "\<exists>n. num_of_partitions L = Some n \<and>
      fst (calc_approx_detail_len L n) = 1 \<and>
      (\<forall>m. m < n \<longrightarrow> 1 < fst (calc_approx_detail_len L m))"
    by blast
  have "unat (snd (calc_approx_detail_len 1 k)) = 0"
    by (cases "unat k") (simp_all add: unat_calc_approx_detail_len approx_len_one)
  moreover have "unat (fst (calc_approx_detail_len 1 k)) = 1"
    by (simp add: unat_calc_approx_detail_len approx_len_one)
  ultimately have fixed: "calc_approx_detail_len 1 k = (1, 0)"
    by (simp add: prod_eq_iff word_unat_eq_iff)
  from zero low reach fixed show ?thesis
    by blast
qed

theorem calc_approx_detail_len_low_pass_witness:
  "(1 :: size_t) \<le> 5 \<and> calc_approx_detail_len 5 0 = (5, 0) \<and>
   1 \<le> fst (calc_approx_detail_len 5 2) \<and>
   (\<exists>n. num_of_partitions 5 = Some n \<and> fst (calc_approx_detail_len 5 n) = 1) \<and>
   calc_approx_detail_len 1 2 = (1, 0) \<and>
   calc_approx_detail_len 5 2 = (2, 1) \<and> calc_approx_detail_len 5 3 = (1, 1) \<and>
   num_of_partitions 5 = Some 3 \<and>
   fst (calc_approx_detail_len 5 3) = 1 \<and>
   (2 :: size_t) < 3 \<and> 1 < fst (calc_approx_detail_len 5 2) \<and>
   (1 :: size_t) < 3 \<and> 1 < fst (calc_approx_detail_len 5 1) \<and>
   (0 :: size_t) < 3 \<and> 1 < fst (calc_approx_detail_len 5 0)"
proof -
  have pairs: "calc_approx_detail_len 5 2 = (2, 1)" "calc_approx_detail_len 5 3 = (1, 1)"
    by code_simp+
  have parts: "num_of_partitions 5 = Some 3"
    by code_simp
  have one_le: "(1 :: size_t) \<le> 5"
    by simp
  have lower: "(2 :: size_t) < 3" "(1 :: size_t) < 3" "(0 :: size_t) < 3"
    by simp_all
  note inst = calc_approx_detail_len_low_pass [OF one_le, of 2]
  from inst obtain n where n: "num_of_partitions 5 = Some n"
    "fst (calc_approx_detail_len 5 n) = 1"
    "\<forall>m. m < n \<longrightarrow> 1 < fst (calc_approx_detail_len 5 m)"
    by blast
  from n(1) parts have "n = 3"
    by simp
  with n(2,3) lower have exact: "fst (calc_approx_detail_len 5 3) = 1"
    "1 < fst (calc_approx_detail_len 5 2)" "1 < fst (calc_approx_detail_len 5 1)"
    "1 < fst (calc_approx_detail_len 5 0)"
    by blast+
  from inst have others: "calc_approx_detail_len 5 0 = (5, 0)"
    "1 \<le> fst (calc_approx_detail_len 5 2)"
    "\<exists>n. num_of_partitions 5 = Some n \<and> fst (calc_approx_detail_len 5 n) = 1"
    "calc_approx_detail_len 1 2 = (1, 0)"
    by blast+
  from one_le others pairs parts exact lower show ?thesis
    by blast
qed

section \<open>The number of dyadic levels\<close>

text \<open>
  The logarithm is only needed at three places: its sign, a bound that keeps the
  conversion to \<open>size_t\<close> in range, and the bands between consecutive powers of two.
\<close>

lemma log_small: "0 < n \<Longrightarrow> n < 8 \<Longrightarrow> log 2 (real n / 8) < 0"
  by simp

lemma log_large: "256 \<le> n \<Longrightarrow> 5 \<le> log 2 (real n / 8)"
proof -
  assume "256 \<le> n"
  then have "(2::real) powr 5 \<le> real n / 8"
    by simp
  then show ?thesis
    by (subst le_log_iff) simp_all
qed

lemma floor_log_band:
  assumes "8 * 2 ^ k \<le> n" and "n < 16 * 2 ^ k"
  shows "\<lfloor>log 2 (real n / 8)\<rfloor> = int k"
proof -
  have "(0::nat) < 8 * 2 ^ k"
    by simp
  with assms(1) have pos: "0 < n"
    by linarith
  from assms(1) have "8 * 2 ^ k \<le> real n"
    by (metis of_nat_le_iff of_nat_mult of_nat_numeral of_nat_power)
  then have "2 powr real k \<le> real n / 8"
    by (simp add: powr_realpow)
  then have lower: "real k \<le> log 2 (real n / 8)"
    using pos by (subst le_log_iff) simp_all
  from assms(2) have "real n < 16 * 2 ^ k"
    by (metis of_nat_less_iff of_nat_mult of_nat_numeral of_nat_power)
  then have "real n / 8 < 2 powr (real k + 1)"
    by (simp add: powr_realpow powr_add)
  moreover from pos have "0 < real n / 8"
    by simp
  ultimately have upper: "log 2 (real n / 8) < real k + 1"
    by (subst log_less_iff) simp_all
  from lower upper show ?thesis
    by (intro floor_unique) simp_all
qed

lemma log_bound: "0 < n \<Longrightarrow> n < 2 ^ 64 \<Longrightarrow> log 2 (real n / 8) < 61"
proof -
  assume "0 < n" "n < 2 ^ 64"
  then have "real n < 2 ^ 64"
    by (metis of_nat_less_iff of_nat_numeral of_nat_power)
  then have "real n / 8 < 2 powr 61"
    by simp
  with \<open>0 < n\<close> show ?thesis
    by (subst log_less_iff) simp_all
qed

lemma min_word_of_int:
  "0 \<le> z \<Longrightarrow> z < 2 ^ 64 \<Longrightarrow> min (word_of_int z) (6 :: size_t) = word_of_int (min 6 z)"
proof -
  assume "0 \<le> z" "z < 2 ^ 64"
  then have u: "uint (word_of_int z :: size_t) = z"
    by (simp add: uint_word_of_int)
  have "(word_of_int z \<le> (6 :: size_t)) = (z \<le> 6)"
    by (simp add: word_le_def u)
  then show ?thesis
    by (simp add: min_def)
qed

lemma num_of_xforms_formula:
  assumes "0 < L"
  shows "num_of_xforms L =
    Some (word_of_int (min 6 (max 0 (\<lfloor>log 2 (real (unat L) / 8)\<rfloor> + 1))))"
proof -
  let ?f = "log 2 (real (unat L) / 8)"
  from assms have pos: "0 < unat L"
    by (simp add: word_less_nat_alt)
  have "unat L < 2 ^ 64"
    using unsigned_less [of L, where ?'a = nat] by simp
  with pos have "?f < 61"
    by (rule log_bound)
  then have "\<lfloor>?f\<rfloor> + 1 \<le> 62"
    by linarith
  then have small: "\<lfloor>?f\<rfloor> + 1 < 2 ^ 64"
    by simp
  show ?thesis
  proof (cases "?f < 0")
    case True
    then have "\<lfloor>?f\<rfloor> + 1 \<le> 0"
      by linarith
    then have "min 6 (max 0 (\<lfloor>?f\<rfloor> + 1)) = 0"
      by simp
    with True assms show ?thesis
      by (simp add: num_of_xforms_def Let_def)
  next
    case False
    then have nonneg: "0 \<le> \<lfloor>?f\<rfloor> + 1"
      by simp
    then have "min 6 (max 0 (\<lfloor>?f\<rfloor> + 1)) = min 6 (\<lfloor>?f\<rfloor> + 1)"
      by simp
    moreover have "min (word_of_int \<lfloor>?f\<rfloor> + 1) (6 :: size_t) = word_of_int (min 6 (\<lfloor>?f\<rfloor> + 1))"
      using min_word_of_int [OF nonneg small] by simp
    ultimately show ?thesis
      using False assms by (simp add: num_of_xforms_def Let_def)
  qed
qed

lemma num_of_xforms_small:
  assumes "0 < L" and "L < 8"
  shows "num_of_xforms L = Some 0"
proof -
  from assms have "0 < unat L" and "unat L < 8"
    by (simp_all add: word_less_nat_alt)
  then have "log 2 (real (unat L) / 8) < 0"
    by (rule log_small)
  then have "\<lfloor>log 2 (real (unat L) / 8)\<rfloor> + 1 \<le> 0"
    by linarith
  then have "min 6 (max 0 (\<lfloor>log 2 (real (unat L) / 8)\<rfloor> + 1)) = 0"
    by simp
  then show ?thesis
    by (simp only: num_of_xforms_formula [OF assms(1)] word_of_int_0)
qed

lemma num_of_xforms_large:
  assumes "256 \<le> L"
  shows "num_of_xforms L = Some 6"
proof -
  from assms have big: "256 \<le> unat L"
    by (simp add: word_le_nat_alt)
  then have pos: "0 < L"
    by (simp add: word_less_nat_alt)
  from big have "5 \<le> log 2 (real (unat L) / 8)"
    by (rule log_large)
  then have "5 \<le> \<lfloor>log 2 (real (unat L) / 8)\<rfloor>"
    by (simp add: le_floor_iff)
  then have "min 6 (max 0 (\<lfloor>log 2 (real (unat L) / 8)\<rfloor> + 1)) = 6"
    by simp
  then show ?thesis
    by (simp only: num_of_xforms_formula [OF pos] word_of_int_numeral)
qed

text \<open>
  On the bands between the thresholds the result is the band's index plus one, which
  gives the function as a table on machine integers.
\<close>

lemma num_of_xforms_band:
  assumes "8 * 2 ^ k \<le> unat L" and "unat L < 16 * 2 ^ k" and "k < 5"
  shows "num_of_xforms L = Some (word_of_nat (k + 1))"
proof -
  have "(0::nat) < 8 * 2 ^ k"
    by simp
  with assms(1) have "0 < unat L"
    by linarith
  then have pos: "0 < L"
    by (simp add: word_less_nat_alt)
  from assms(1,2) have "\<lfloor>log 2 (real (unat L) / 8)\<rfloor> = int k"
    by (rule floor_log_band)
  with assms(3) have "min 6 (max 0 (\<lfloor>log 2 (real (unat L) / 8)\<rfloor> + 1)) = int (k + 1)"
    by simp
  then show ?thesis
    by (simp only: num_of_xforms_formula [OF pos] of_int_of_nat_eq)
qed

lemma num_of_xforms_table [code]:
  "num_of_xforms L =
     (if L = 0 then None
      else Some (if L < 8 then 0 else if L < 16 then 1 else if L < 32 then 2
                 else if L < 64 then 3 else if L < 128 then 4 else if L < 256 then 5
                 else 6))"
proof -
  consider "L = 0" | "0 < L" "L < 8" | "8 \<le> L" "L < 16" | "16 \<le> L" "L < 32"
    | "32 \<le> L" "L < 64" | "64 \<le> L" "L < 128" | "128 \<le> L" "L < 256" | "256 \<le> L"
    by (metis not_le word_neq_0_conv)
  then show ?thesis
  proof cases
    case 1
    then show ?thesis
      by (simp add: num_of_xforms_def)
  next
    case 2
    then show ?thesis
      using num_of_xforms_small [of L] by auto
  next
    case 3
    then have "num_of_xforms L = Some (word_of_nat (0 + 1))"
      by (intro num_of_xforms_band) (simp_all add: word_le_nat_alt word_less_nat_alt)
    with 3 show ?thesis
      by (auto simp: word_le_nat_alt word_less_nat_alt)
  next
    case 4
    then have "num_of_xforms L = Some (word_of_nat (1 + 1))"
      by (intro num_of_xforms_band) (simp_all add: word_le_nat_alt word_less_nat_alt)
    with 4 show ?thesis
      by (auto simp: word_le_nat_alt word_less_nat_alt)
  next
    case 5
    then have "num_of_xforms L = Some (word_of_nat (2 + 1))"
      by (intro num_of_xforms_band) (simp_all add: word_le_nat_alt word_less_nat_alt)
    with 5 show ?thesis
      by (auto simp: word_le_nat_alt word_less_nat_alt)
  next
    case 6
    then have "num_of_xforms L = Some (word_of_nat (3 + 1))"
      by (intro num_of_xforms_band) (simp_all add: word_le_nat_alt word_less_nat_alt)
    with 6 show ?thesis
      by (auto simp: word_le_nat_alt word_less_nat_alt)
  next
    case 7
    then have "num_of_xforms L = Some (word_of_nat (4 + 1))"
      by (intro num_of_xforms_band) (simp_all add: word_le_nat_alt word_less_nat_alt)
    with 7 show ?thesis
      by (auto simp: word_le_nat_alt word_less_nat_alt)
  next
    case 8
    then have "num_of_xforms L = Some 6"
      by (rule num_of_xforms_large)
    with 8 show ?thesis
      by (auto simp: word_le_nat_alt word_less_nat_alt)
  qed
qed

text \<open>
  Claim C2. For every axis length \<open>L \<ge> 1\<close> the number of dyadic levels
  \<open>num_of_xforms L\<close> equals \<open>min 6 (max 0 (\<lfloor>log\<^sub>2 (L / 8)\<rfloor> + 1))\<close>. In particular it
  is 0 for every \<open>L < 8\<close> (so for \<open>L = 7\<close>), it is 6 for every \<open>L \<ge> 256\<close>
  (so for \<open>L = 10\<^sup>6\<close>), and it never exceeds 6.
\<close>

theorem num_of_xforms_levels:
  assumes "1 \<le> L"
  shows "num_of_xforms L =
           Some (word_of_int (min 6 (max 0 (\<lfloor>log 2 (real (unat L) / 8)\<rfloor> + 1)))) \<and>
         (L < 8 \<longrightarrow> num_of_xforms L = Some 0) \<and>
         (256 \<le> L \<longrightarrow> num_of_xforms L = Some 6) \<and>
         (\<exists>n. num_of_xforms L = Some n \<and> n \<le> 6) \<and>
         num_of_xforms 7 = Some 0 \<and>
         num_of_xforms 1000000 = Some 6"
proof -
  from assms have pos: "0 < L"
    by (simp add: word_less_nat_alt word_le_nat_alt)
  have cap: "\<exists>n. num_of_xforms L = Some n \<and> n \<le> 6"
    using pos by (simp add: num_of_xforms_def Let_def)
  have seven: "num_of_xforms 7 = Some 0"
    by (rule num_of_xforms_small) simp_all
  have million: "num_of_xforms 1000000 = Some 6"
    by (rule num_of_xforms_large) simp
  from num_of_xforms_formula [OF pos] num_of_xforms_small [OF pos] num_of_xforms_large [of L]
    cap seven million
  show ?thesis
    by simp
qed

theorem num_of_xforms_levels_witness:
  "(1 :: size_t) \<le> 3 \<and> (3 :: size_t) < 8 \<and> num_of_xforms 3 = Some 0 \<and>
   (1 :: size_t) \<le> 4096 \<and> (256 :: size_t) \<le> 4096 \<and> num_of_xforms 4096 = Some 6 \<and>
   (1 :: size_t) \<le> 100 \<and> num_of_xforms 100 = Some 4"
proof -
  have a: "(1 :: size_t) \<le> 3" "(3 :: size_t) < 8" "(1 :: size_t) \<le> 4096"
      "(256 :: size_t) \<le> 4096" "(1 :: size_t) \<le> 100"
    by simp_all
  from num_of_xforms_levels [OF a(1)] a(2) have "num_of_xforms 3 = Some 0"
    by blast
  moreover from num_of_xforms_levels [OF a(3)] a(4) have "num_of_xforms 4096 = Some 6"
    by blast
  moreover have "\<lfloor>log 2 (real (unat (100 :: size_t)) / 8)\<rfloor> = 3"
    using floor_log_band [of 3 "unat (100 :: size_t)"] by simp
  with num_of_xforms_levels [OF a(5)] have "num_of_xforms 100 = Some 4"
    by simp
  ultimately show ?thesis
    using a by simp
qed

section \<open>Gather and scatter\<close>

text \<open>
  Both variants of each operation use the split point \<open>\<lceil>n/2\<rceil>\<close> on the lengths they are
  made for, so the parity dispatch is one operation with that split point.
\<close>

lemma split_point_even: "even n \<Longrightarrow> n div 2 = (n + 1) div (2::nat)"
  by presburger

lemma split_point_odd: "odd n \<Longrightarrow> n div 2 + 1 = (n + 1) div (2::nat)"
  by presburger

lemma gather_eq: "gather xs = gather_at ((length xs + 1) div 2) xs"
proof (cases "even (length xs)")
  case True
  then show ?thesis
    by (simp only: gather_def m_gather_even_def split_point_even if_True)
next
  case False
  then show ?thesis
    using split_point_odd [OF False] by (simp add: gather_def m_gather_odd_def)
qed

lemma scatter_eq: "scatter xs = scatter_at ((length xs + 1) div 2) xs"
proof (cases "even (length xs)")
  case True
  then show ?thesis
    by (simp only: scatter_def m_scatter_even_def split_point_even if_True)
next
  case False
  then show ?thesis
    using split_point_odd [OF False] by (simp add: scatter_def m_scatter_odd_def)
qed

lemma length_gather_at: "c \<le> length xs \<Longrightarrow> length (gather_at c xs) = length xs"
  by (simp add: gather_at_def)

lemma length_scatter_at: "length (scatter_at c xs) = length xs"
  by (simp add: scatter_at_def)

lemma length_gather: "length (gather xs) = length xs"
  by (simp add: gather_eq length_gather_at)

lemma length_scatter: "length (scatter xs) = length xs"
  by (simp add: scatter_eq length_scatter_at)

lemma gather_at_low: "i < c \<Longrightarrow> gather_at c xs ! i = xs ! (2 * i)"
  by (simp add: gather_at_def nth_append)

lemma gather_at_high:
  "c \<le> i \<Longrightarrow> i < length xs \<Longrightarrow> gather_at c xs ! i = xs ! (2 * (i - c) + 1)"
proof -
  assume "c \<le> i" "i < length xs"
  then have "i - c < length xs - c"
    by simp
  with \<open>c \<le> i\<close> show ?thesis
    by (simp add: gather_at_def nth_append)
qed

lemma scatter_at_nth:
  "j < length xs \<Longrightarrow>
   scatter_at c xs ! j = (if even j then xs ! (j div 2) else xs ! (c + j div 2))"
  by (simp add: scatter_at_def)

lemma scatter_nth:
  "j < length xs \<Longrightarrow>
   scatter xs ! j =
     (if even j then xs ! (j div 2) else xs ! ((length xs + 1) div 2 + j div 2))"
  by (simp add: scatter_eq scatter_at_nth)

lemma gather_low: "i < (length xs + 1) div 2 \<Longrightarrow> gather xs ! i = xs ! (2 * i)"
  by (simp add: gather_eq gather_at_low)

lemma gather_high:
  "(length xs + 1) div 2 \<le> i \<Longrightarrow> i < length xs \<Longrightarrow>
   gather xs ! i = xs ! (2 * (i - (length xs + 1) div 2) + 1)"
  by (simp add: gather_eq gather_at_high)

lemma scatter_gather: "scatter (gather xs) = xs"
proof (rule nth_equalityI)
  show "length (scatter (gather xs)) = length xs"
    by (simp add: length_scatter length_gather)
next
  fix j
  assume "j < length (scatter (gather xs))"
  then have j: "j < length xs"
    by (simp add: length_scatter length_gather)
  let ?c = "(length xs + 1) div 2"
  from j have step: "scatter (gather xs) ! j =
      (if even j then gather xs ! (j div 2) else gather xs ! (?c + j div 2))"
    using scatter_nth [of j "gather xs"] by (simp add: length_gather)
  show "scatter (gather xs) ! j = xs ! j"
  proof (cases "even j")
    case True
    with j have "j div 2 < ?c" and twice: "2 * (j div 2) = j"
      by presburger+
    then have "gather xs ! (j div 2) = xs ! (2 * (j div 2))"
      by (simp only: gather_low)
    with True step twice show ?thesis
      by simp
  next
    case False
    with j have "?c \<le> ?c + j div 2" and "?c + j div 2 < length xs"
      and twice: "2 * (?c + j div 2 - ?c) + 1 = j"
      by presburger+
    then have "gather xs ! (?c + j div 2) = xs ! j"
      using gather_high [of xs "?c + j div 2"] by simp
    with False step show ?thesis
      by simp
  qed
qed

lemma gather_scatter: "gather (scatter xs) = xs"
proof (rule nth_equalityI)
  show "length (gather (scatter xs)) = length xs"
    by (simp add: length_scatter length_gather)
next
  fix i
  assume "i < length (gather (scatter xs))"
  then have i: "i < length xs"
    by (simp add: length_scatter length_gather)
  let ?c = "(length xs + 1) div 2"
  show "gather (scatter xs) ! i = xs ! i"
  proof (cases "i < ?c")
    case True
    then have twice: "2 * i < length xs"
      by presburger
    from True have "gather (scatter xs) ! i = scatter xs ! (2 * i)"
      using gather_low [of i "scatter xs"] by (simp add: length_scatter)
    also from twice have "\<dots> = xs ! i"
      by (simp add: scatter_nth)
    finally show ?thesis .
  next
    case False
    with i have odd_pos: "2 * (i - ?c) + 1 < length xs" and shift: "?c + (i - ?c) = i"
      by presburger+
    from False i have "gather (scatter xs) ! i = scatter xs ! (2 * (i - ?c) + 1)"
      using gather_high [of "scatter xs" i] by (simp add: length_scatter)
    also from odd_pos shift have "\<dots> = xs ! i"
      by (simp add: scatter_nth)
    finally show ?thesis .
  qed
qed

lemma nths_parity:
  "nths xs {i. even i} = map (\<lambda>i. xs ! (2 * i)) [0..<(length xs + 1) div 2] \<and>
   nths xs {i. odd i} = map (\<lambda>i. xs ! (2 * i + 1)) [0..<length xs div 2]"
proof (induction xs)
  case Nil
  show ?case by simp
next
  case (Cons x xs)
  have shift_even: "{j. Suc j \<in> {i. even i}} = {i. odd i}"
    by auto
  have shift_odd: "{j. Suc j \<in> {i. odd i}} = {i. even i}"
    by auto
  have "[0..<Suc (length xs div 2)] = 0 # map Suc [0..<length xs div 2]"
    by (simp add: upt_conv_Cons map_Suc_upt del: upt_Suc)
  then have "map (\<lambda>i. (x # xs) ! (2 * i)) [0..<(length (x # xs) + 1) div 2] =
      x # map (\<lambda>i. xs ! (2 * i + 1)) [0..<length xs div 2]"
    by (simp add: o_def del: upt_Suc)
  moreover have "map (\<lambda>i. (x # xs) ! (2 * i + 1)) [0..<length (x # xs) div 2] =
      map (\<lambda>i. xs ! (2 * i)) [0..<(length xs + 1) div 2]"
    by simp
  ultimately show ?case
    using Cons.IH by (simp add: nths_Cons shift_even shift_odd)
qed

lemma take_gather: "take ((length xs + 1) div 2) (gather xs) = nths xs {i. even i}"
  by (simp add: gather_eq gather_at_def nths_parity)

lemma drop_gather: "drop ((length xs + 1) div 2) (gather xs) = nths xs {i. odd i}"
proof -
  have "length xs - (length xs + 1) div 2 = length xs div 2"
    by presburger
  then show ?thesis
    by (simp add: gather_eq gather_at_def nths_parity)
qed


lemma variants_inverse:
  "even (length xs) \<Longrightarrow> m_scatter_even (m_gather_even xs) = xs"
  "odd (length xs) \<Longrightarrow> m_scatter_odd (m_gather_odd xs) = xs"
  "even (length xs) \<Longrightarrow> m_gather_even (m_scatter_even xs) = xs"
  "odd (length xs) \<Longrightarrow> m_gather_odd (m_scatter_odd xs) = xs"
proof -
  show "m_scatter_even (m_gather_even xs) = xs" if "even (length xs)"
    using that scatter_gather [of xs] length_gather [of xs]
    by (simp add: gather_def scatter_def)
  show "m_scatter_odd (m_gather_odd xs) = xs" if "odd (length xs)"
    using that scatter_gather [of xs] length_gather [of xs]
    by (simp add: gather_def scatter_def)
  show "m_gather_even (m_scatter_even xs) = xs" if "even (length xs)"
    using that gather_scatter [of xs] length_scatter [of xs]
    by (simp add: gather_def scatter_def)
  show "m_gather_odd (m_scatter_odd xs) = xs" if "odd (length xs)"
    using that gather_scatter [of xs] length_scatter [of xs]
    by (simp add: gather_def scatter_def)
qed

text \<open>
  Claim C8. For every source range of length \<open>n\<close>, gather places the even-indexed source
  elements, in their relative order, into the destination positions \<open>[0, \<lceil>n/2\<rceil>)\<close> and
  the odd-indexed source elements, in their relative order, into the positions
  \<open>[\<lceil>n/2\<rceil>, n)\<close>; scatter sends the positions \<open>[0, \<lceil>n/2\<rceil>)\<close> to the even and the
  positions \<open>[\<lceil>n/2\<rceil>, n)\<close> to the odd indices; scatter after gather and gather after
  scatter over the same length restore the original sequence exactly.
\<close>

theorem gather_scatter_inverse:
  "length (gather xs) = length xs \<and>
   take ((length xs + 1) div 2) (gather xs) = nths xs {i. even i} \<and>
   drop ((length xs + 1) div 2) (gather xs) = nths xs {i. odd i} \<and>
   (\<forall>i<(length xs + 1) div 2. gather xs ! i = xs ! (2 * i)) \<and>
   (\<forall>i. (length xs + 1) div 2 \<le> i \<and> i < length xs \<longrightarrow>
        gather xs ! i = xs ! (2 * (i - (length xs + 1) div 2) + 1)) \<and>
   length (scatter xs) = length xs \<and>
   (\<forall>j<length xs. scatter xs ! j =
        (if even j then xs ! (j div 2) else xs ! ((length xs + 1) div 2 + j div 2))) \<and>
   scatter (gather xs) = xs \<and>
   gather (scatter xs) = xs \<and>
   (even (length xs) \<longrightarrow>
      m_scatter_even (m_gather_even xs) = xs \<and> m_gather_even (m_scatter_even xs) = xs) \<and>
   (odd (length xs) \<longrightarrow>
      m_scatter_odd (m_gather_odd xs) = xs \<and> m_gather_odd (m_scatter_odd xs) = xs)"
proof (intro conjI allI impI)
  show "length (gather xs) = length xs"
    by (rule length_gather)
  show "take ((length xs + 1) div 2) (gather xs) = nths xs {i. even i}"
    by (rule take_gather)
  show "drop ((length xs + 1) div 2) (gather xs) = nths xs {i. odd i}"
    by (rule drop_gather)
  show "gather xs ! i = xs ! (2 * i)" if "i < (length xs + 1) div 2" for i
    using that by (rule gather_low)
  show "gather xs ! i = xs ! (2 * (i - (length xs + 1) div 2) + 1)"
    if "(length xs + 1) div 2 \<le> i \<and> i < length xs" for i
    using that by (simp only: gather_high)
  show "length (scatter xs) = length xs"
    by (rule length_scatter)
  show "scatter xs ! j =
      (if even j then xs ! (j div 2) else xs ! ((length xs + 1) div 2 + j div 2))"
    if "j < length xs" for j
    using that by (rule scatter_nth)
  show "scatter (gather xs) = xs"
    by (rule scatter_gather)
  show "gather (scatter xs) = xs"
    by (rule gather_scatter)
  show "m_scatter_even (m_gather_even xs) = xs" if "even (length xs)"
    using that by (rule variants_inverse)
  show "m_gather_even (m_scatter_even xs) = xs" if "even (length xs)"
    using that by (rule variants_inverse)
  show "m_scatter_odd (m_gather_odd xs) = xs" if "odd (length xs)"
    using that by (rule variants_inverse)
  show "m_gather_odd (m_scatter_odd xs) = xs" if "odd (length xs)"
    using that by (rule variants_inverse)
qed

theorem gather_scatter_inverse_witness:
  "gather [10, 11, 12, 13, 14 :: nat] = [10, 12, 14, 11, 13] \<and>
   scatter [10, 12, 14, 11, 13 :: nat] = [10, 11, 12, 13, 14] \<and>
   gather [10, 11, 12, 13 :: nat] = [10, 12, 11, 13] \<and>
   scatter (gather [10, 11, 12, 13, 14 :: nat]) = [10, 11, 12, 13, 14] \<and>
   gather (scatter [10, 12, 14, 11, 13 :: nat]) = [10, 12, 14, 11, 13] \<and>
   (1 :: nat) < (length [10, 11, 12, 13, 14 :: nat] + 1) div 2 \<and>
   gather [10, 11, 12, 13, 14 :: nat] ! 1 = [10, 11, 12, 13, 14] ! (2 * 1) \<and>
   (length [10, 11, 12, 13, 14 :: nat] + 1) div 2 \<le> 4 \<and>
   4 < length [10, 11, 12, 13, 14 :: nat] \<and>
   gather [10, 11, 12, 13, 14 :: nat] ! 4 =
     [10, 11, 12, 13, 14] ! (2 * (4 - (length [10, 11, 12, 13, 14 :: nat] + 1) div 2) + 1) \<and>
   scatter [10, 12, 14, 11, 13 :: nat] ! 3 = [10, 12, 14, 11, 13] ! 4 \<and>
   even (length [10, 11, 12, 13 :: nat]) \<and>
   m_scatter_even (m_gather_even [10, 11, 12, 13 :: nat]) = [10, 11, 12, 13] \<and>
   odd (length [10, 11, 12, 13, 14 :: nat]) \<and>
   m_scatter_odd (m_gather_odd [10, 11, 12, 13, 14 :: nat]) = [10, 11, 12, 13, 14]"
proof -
  have parity: "even (length [10, 11, 12, 13 :: nat])" "odd (length [10, 11, 12, 13, 14 :: nat])"
    by simp_all
  have variants: "m_scatter_even (m_gather_even [10, 11, 12, 13 :: nat]) = [10, 11, 12, 13]"
    "m_scatter_odd (m_gather_odd [10, 11, 12, 13, 14 :: nat]) = [10, 11, 12, 13, 14]"
    using gather_scatter_inverse [of "[10, 11, 12, 13 :: nat]"]
      gather_scatter_inverse [of "[10, 11, 12, 13, 14 :: nat]"] parity
    by blast+
  have bounds: "(1 :: nat) < (length [10, 11, 12, 13, 14 :: nat] + 1) div 2"
    "(length [10, 11, 12, 13, 14 :: nat] + 1) div 2 \<le> 4"
    "4 < length [10, 11, 12, 13, 14 :: nat]"
    "3 < length [10, 12, 14, 11, 13 :: nat]"
    by simp_all
  have "gather [10, 11, 12, 13, 14 :: nat] = [10, 12, 14, 11, 13]"
    and "scatter [10, 12, 14, 11, 13 :: nat] = [10, 11, 12, 13, 14]"
    and "gather [10, 11, 12, 13 :: nat] = [10, 12, 11, 13]"
    by code_simp+
  moreover have "scatter (gather [10, 11, 12, 13, 14 :: nat]) = [10, 11, 12, 13, 14]"
    and "gather [10, 11, 12, 13, 14 :: nat] ! 1 = [10, 11, 12, 13, 14] ! (2 * 1)"
    and "gather [10, 11, 12, 13, 14 :: nat] ! 4 =
      [10, 11, 12, 13, 14] ! (2 * (4 - (length [10, 11, 12, 13, 14 :: nat] + 1) div 2) + 1)"
    using gather_scatter_inverse [of "[10, 11, 12, 13, 14 :: nat]"] bounds by blast+
  moreover have "gather (scatter [10, 12, 14, 11, 13 :: nat]) = [10, 12, 14, 11, 13]"
    and "scatter [10, 12, 14, 11, 13 :: nat] ! 3 = [10, 12, 14, 11, 13] ! 4"
    using gather_scatter_inverse [of "[10, 12, 14, 11, 13 :: nat]"] bounds(4) by simp_all
  ultimately show ?thesis
    using bounds parity variants by blast
qed

section \<open>The buffer owner and the transforms\<close>

subsection \<open>Transforms keep the shape\<close>

text \<open>
  Every write of a transform into the owned buffer is an update of one position, so no pass
  changes the length of the buffer, and no pass touches the shape.
\<close>


lemma length_write_run: "length (write_run buf start stride vals) = length buf"
proof -
  have "length (fold (\<lambda>i b. b[start + i * stride := vals ! i]) idxs buf) = length buf"
    for idxs
    by (induction idxs arbitrary: buf) simp_all
  then show ?thesis
    by (simp add: write_run_def)
qed

lemma shape_xform_run: "shape (xform_run f start stride len st) = shape st"
  by (simp add: shape_def xform_run_def length_write_run)

lemma shape_fold:
  assumes "\<And>x s. shape (g x s) = shape s"
  shows "shape (fold g xs st) = shape st"
  using assms by (induction xs arbitrary: st) simp_all

lemma shape_rows_pass: "shape (rows_pass f plane len_xy st) = shape st"
  by (simp add: rows_pass_def shape_fold shape_xform_run split: prod.split)

lemma shape_columns_pass: "shape (columns_pass f plane len_xy st) = shape st"
  by (simp add: columns_pass_def shape_fold shape_xform_run split: prod.split)

lemma shape_x_pass: "shape (x_pass f vol len_xyz st) = shape st"
  by (simp add: x_pass_def shape_fold shape_xform_run split: prod.split)

lemma shape_y_pass: "shape (y_pass f vol len_xyz st) = shape st"
  by (simp add: y_pass_def shape_fold shape_xform_run split: prod.split)

lemma shape_z_pass: "shape (z_pass f vol len_xyz st) = shape st"
  by (simp add: z_pass_def shape_fold shape_xform_run split: prod.split)

lemmas shape_passes =
  shape_xform_run shape_rows_pass shape_columns_pass shape_x_pass shape_y_pass shape_z_pass

lemma shape_2d_one_level:
  "shape (m_dwt2d_one_level plane len_xy st) = shape st"
  "shape (m_idwt2d_one_level plane len_xy st) = shape st"
  by (simp_all add: m_dwt2d_one_level_def m_idwt2d_one_level_def shape_passes)

lemma shape_3d_one_level:
  "shape (m_dwt3d_one_level vol len_xyz st) = shape st"
  "shape (m_idwt3d_one_level vol len_xyz st) = shape st"
  by (simp_all add: m_dwt3d_one_level_def m_idwt3d_one_level_def shape_passes)

lemma shape_packet_axis:
  assumes "\<And>f vol len_xyz st. shape (pass f vol len_xyz st) = shape st"
  shows "shape (packet_axis pass f l len_xyz st) = shape st"
  using assms by (simp add: packet_axis_def)

lemma shape_packet_level:
  "shape (dwt3d_packet_level len_xyz st) = shape st"
  "shape (idwt3d_packet_level len_xyz st) = shape st"
  by (simp_all add: dwt3d_packet_level_def idwt3d_packet_level_def shape_packet_axis
      shape_passes split: prod.split)

lemma shape_alloc_slice_buf: "shape (alloc_slice_buf st) = shape st"
  by (simp add: alloc_slice_buf_def shape_def split: prod.split)

lemma shape_multi_level:
  "shape (m_dwt1d array array_len num st) = shape st"
  "shape (m_idwt1d array array_len num st) = shape st"
  "shape (m_dwt2d plane len_xy num st) = shape st"
  "shape (m_idwt2d plane len_xy num st) = shape st"
  by (simp_all add: m_dwt1d_def m_idwt1d_def m_dwt2d_def m_idwt2d_def shape_fold
      shape_passes shape_2d_one_level split: prod.split)

lemma shape_apply_xform:
  assumes "apply_xform x st = Some st'"
  shows "shape st' = shape st"
proof (cases x)
  case Dwt1d
  with assms show ?thesis
    by (auto simp: dwt1d_def shape_multi_level split: prod.splits option.splits)
next
  case Idwt1d
  with assms show ?thesis
    by (auto simp: idwt1d_def shape_multi_level split: prod.splits option.splits)
next
  case Dwt2d
  with assms show ?thesis
    by (auto simp: dwt2d_def shape_multi_level split: prod.splits option.splits)
next
  case Idwt2d
  with assms show ?thesis
    by (auto simp: idwt2d_def shape_multi_level split: prod.splits option.splits)
next
  case Dwt3d_wavelet_packet
  with assms show ?thesis
    by (auto simp: dwt3d_wavelet_packet_def shape_fold shape_packet_level
        shape_alloc_slice_buf split: prod.splits option.splits)
next
  case Idwt3d_wavelet_packet
  with assms show ?thesis
    by (auto simp: idwt3d_wavelet_packet_def shape_fold shape_packet_level
        shape_alloc_slice_buf split: prod.splits option.splits)
next
  case Dwt3d_dyadic
  with assms show ?thesis
    by (auto simp: dwt3d_dyadic_def shape_fold shape_3d_one_level
        split: prod.splits option.splits)
next
  case Idwt3d_dyadic
  with assms show ?thesis
    by (auto simp: idwt3d_dyadic_def shape_fold shape_3d_one_level
        split: prod.splits option.splits)
qed

lemma shape_run_xforms:
  "run_xforms ops st = Some st' \<Longrightarrow> shape st' = shape st"
proof (induction ops arbitrary: st)
  case Nil
  then show ?case by simp
next
  case (Cons x ops)
  then obtain st1 where first: "apply_xform x st = Some st1"
    and rest: "run_xforms ops st1 = Some st'"
    by (auto split: option.splits)
  from rest have "shape st' = shape st1"
    by (rule Cons.IH)
  with shape_apply_xform [OF first] show ?case
    by simp
qed

subsection \<open>Transforms return\<close>


lemma num_of_xforms_total: "0 < L \<Longrightarrow> \<exists>k. num_of_xforms L = Some k"
  by (simp add: num_of_xforms_def Let_def)

lemma num_of_partitions_total: "\<exists>k. num_of_partitions L = Some k"
  using unat_num_of_partitions [of L] by blast

lemma apply_xform_total:
  assumes "valid_shape (m_dims st)"
  shows "\<exists>st'. apply_xform x st = Some st'"
proof -
  obtain dx dy dz where dims: "m_dims st = (dx, dy, dz)"
    by (cases "m_dims st") auto
  with assms have pos: "0 < dx" "0 < dy" "0 < dz"
    by (simp_all add: valid_shape_def)
  obtain kx where kx: "num_of_xforms dx = Some kx"
    using num_of_xforms_total [OF pos(1)] by blast
  obtain ky where ky: "num_of_xforms dy = Some ky"
    using num_of_xforms_total [OF pos(2)] by blast
  obtain kz where kz: "num_of_xforms dz = Some kz"
    using num_of_xforms_total [OF pos(3)] by blast
  obtain px where px: "num_of_partitions dx = Some px"
    using num_of_partitions_total [of dx] by blast
  obtain py where py: "num_of_partitions dy = Some py"
    using num_of_partitions_total [of dy] by blast
  obtain pz where pz: "num_of_partitions dz = Some pz"
    using num_of_partitions_total [of dz] by blast
  show ?thesis
  proof (cases x)
    case Dwt1d
    then show ?thesis by (simp add: dwt1d_def dims kx)
  next
    case Idwt1d
    then show ?thesis by (simp add: idwt1d_def dims kx)
  next
    case Dwt2d
    then show ?thesis by (simp add: dwt2d_def dims kx ky)
  next
    case Idwt2d
    then show ?thesis by (simp add: idwt2d_def dims kx ky)
  next
    case Dwt3d_wavelet_packet
    then show ?thesis by (simp add: dwt3d_wavelet_packet_def dims px py pz)
  next
    case Idwt3d_wavelet_packet
    then show ?thesis by (simp add: idwt3d_wavelet_packet_def dims px py pz)
  next
    case Dwt3d_dyadic
    then show ?thesis by (simp add: dwt3d_dyadic_def dims kx ky kz)
  next
    case Idwt3d_dyadic
    then show ?thesis by (simp add: idwt3d_dyadic_def dims kx ky kz)
  qed
qed

lemma run_xforms_total:
  "valid_shape (m_dims st) \<Longrightarrow> \<exists>st'. run_xforms ops st = Some st'"
proof (induction ops arbitrary: st)
  case Nil
  show ?case by simp
next
  case (Cons x ops)
  from apply_xform_total [OF Cons.prems] obtain st1 where first: "apply_xform x st = Some st1"
    by blast
  then have "shape st1 = shape st"
    by (rule shape_apply_xform)
  with Cons.prems have "valid_shape (m_dims st1)"
    by (simp add: shape_def)
  then obtain st' where "run_xforms ops st1 = Some st'"
    using Cons.IH by blast
  with first show ?case
    by simp
qed

lemma take_data_Good:
  assumes "take_data buf dims st0 = (Good, st)"
  shows "length (m_data_buf st) = volume dims" and "m_dims st = dims"
  using assms by (auto simp: take_data_def split: if_splits)

lemma copy_data_Good:
  assumes "copy_data to_double src len dims st0 = (Good, st)"
  shows "length (m_data_buf st) = volume dims" and "m_dims st = dims"
  using assms by (auto simp: copy_data_def split: if_splits)

text \<open>
  Claim C7. For every loaded volume, that is after an ingest by \<open>take_data\<close> or
  \<open>copy_data\<close> that returned \<open>Good\<close>, the length of the owned buffer equals
  \<open>dx \<cdot> dy \<cdot> dz\<close>, and after any sequence of forward and inverse transform calls in
  any mode the length is the same and \<open>get_dims\<close> returns the same \<open>(dx, dy, dz)\<close>.
  On a valid shape every such sequence of calls runs to its end.
\<close>

theorem buffer_length_and_dims_invariant:
  assumes "take_data buf dims st0 = (Good, st) \<or>
           copy_data to_double src len dims st0 = (Good, st)"
  shows "length (m_data_buf st) = volume dims \<and>
         get_dims st = dims \<and>
         (\<forall>st'. run_xforms ops st = Some st' \<longrightarrow>
            length (m_data_buf st') = volume dims \<and> get_dims st' = dims) \<and>
         (valid_shape dims \<longrightarrow> (\<exists>st'. run_xforms ops st = Some st'))"
proof -
  from assms have loaded: "length (m_data_buf st) = volume dims" "m_dims st = dims"
    using take_data_Good copy_data_Good by blast+
  have "length (m_data_buf st') = volume dims \<and> get_dims st' = dims"
    if "run_xforms ops st = Some st'" for st'
    using shape_run_xforms [OF that] loaded by (simp add: shape_def get_dims_def)
  moreover have "\<exists>st'. run_xforms ops st = Some st'" if "valid_shape dims"
    using that loaded(2) run_xforms_total [of st ops] by simp
  ultimately show ?thesis
    using loaded by (simp add: get_dims_def)
qed


theorem buffer_length_and_dims_invariant_witness:
  "take_data [1, 2, 3, 4, 5, 6, 7, 8] (8, 1, 1) CDF97_new =
     (Good, \<lparr>m_data_buf = [1, 2, 3, 4, 5, 6, 7, 8], m_dims = (8, 1, 1),
             m_qcc_buf = replicate 16 0, m_slice_buf = []\<rparr>) \<and>
   valid_shape (8, 1, 1) \<and>
   volume (8, 1, 1) = 8 \<and>
   (\<exists>st'. run_xforms [Dwt1d, Dwt3d_wavelet_packet, Idwt3d_wavelet_packet, Idwt1d]
      \<lparr>m_data_buf = [1, 2, 3, 4, 5, 6, 7, 8], m_dims = (8, 1, 1),
       m_qcc_buf = replicate 16 0, m_slice_buf = []\<rparr> = Some st' \<and>
      length (m_data_buf st') = 8 \<and> get_dims st' = (8, 1, 1))"
proof -
  let ?st = "\<lparr>m_data_buf = [1, 2, 3, 4, 5, 6, 7, 8], m_dims = (8, 1, 1),
             m_qcc_buf = replicate 16 0, m_slice_buf = []\<rparr>"
  let ?ops = "[Dwt1d, Dwt3d_wavelet_packet, Idwt3d_wavelet_packet, Idwt1d]"
  have load: "take_data [1, 2, 3, 4, 5, 6, 7, 8] (8, 1, 1) CDF97_new = (Good, ?st)"
    by (simp add: take_data_def volume_def max_col_def)
  have valid: "valid_shape (8, 1, 1)"
    by (simp add: valid_shape_def)
  have vol: "volume (8, 1, 1) = 8"
    by (simp add: volume_def)
  from load have "take_data [1, 2, 3, 4, 5, 6, 7, 8] (8, 1, 1) CDF97_new = (Good, ?st) \<or>
      copy_data id (\<lambda>i. 0) 0 (8, 1, 1) CDF97_new = (Good, ?st)"
    by (rule disjI1)
  from buffer_length_and_dims_invariant [OF this, of ?ops] valid vol
  have "\<exists>st'. run_xforms ?ops ?st = Some st' \<and>
      length (m_data_buf st') = 8 \<and> get_dims st' = (8, 1, 1)"
    by auto
  with load valid vol show ?thesis
    by blast
qed


text \<open>
  Claim C6. \<open>copy_data\<close>, and likewise \<open>take_data\<close>, returns \<open>WrongDims\<close> if and only
  if the given length differs from \<open>dx \<cdot> dy \<cdot> dz\<close>; otherwise it returns \<open>Good\<close>, the
  owned buffer has the given length and holds the value-converted source samples, the
  shape is the given one, and nothing of the prior state remains: the resulting object is
  the one that the same ingest produces from a new object.
\<close>

theorem ingest_outcome:
  "(fst (copy_data to_double src len (dx, dy, dz) st) = WrongDims \<longleftrightarrow>
      unat len \<noteq> unat dx * unat dy * unat dz) \<and>
   (unat len = unat dx * unat dy * unat dz \<longrightarrow>
      fst (copy_data to_double src len (dx, dy, dz) st) = Good \<and>
      length (m_data_buf (snd (copy_data to_double src len (dx, dy, dz) st))) = unat len \<and>
      (\<forall>i<unat len.
         m_data_buf (snd (copy_data to_double src len (dx, dy, dz) st)) ! i =
           to_double (src i)) \<and>
      get_dims (snd (copy_data to_double src len (dx, dy, dz) st)) = (dx, dy, dz) \<and>
      snd (copy_data to_double src len (dx, dy, dz) st) =
        snd (copy_data to_double src len (dx, dy, dz) CDF97_new)) \<and>
   (fst (take_data buf (dx, dy, dz) st) = WrongDims \<longleftrightarrow>
      length buf \<noteq> unat dx * unat dy * unat dz) \<and>
   (length buf = unat dx * unat dy * unat dz \<longrightarrow>
      fst (take_data buf (dx, dy, dz) st) = Good \<and>
      view_data (snd (take_data buf (dx, dy, dz) st)) = buf \<and>
      get_dims (snd (take_data buf (dx, dy, dz) st)) = (dx, dy, dz) \<and>
      snd (take_data buf (dx, dy, dz) st) = snd (take_data buf (dx, dy, dz) CDF97_new))"
  by (simp add: copy_data_def take_data_def volume_def get_dims_def view_data_def)


theorem ingest_outcome_witness:
  "unat (6 :: size_t) = unat (3 :: size_t) * unat (2 :: size_t) * unat (1 :: size_t) \<and>
   copy_data real_of_int (\<lambda>i. int i - 2) 6 (3, 2, 1) CDF97_new =
     (Good, \<lparr>m_data_buf = [-2, -1, 0, 1, 2, 3], m_dims = (3, 2, 1),
             m_qcc_buf = [0, 0, 0, 0, 0, 0], m_slice_buf = []\<rparr>) \<and>
   unat (5 :: size_t) \<noteq> unat (3 :: size_t) * unat (2 :: size_t) * unat (1 :: size_t) \<and>
   fst (copy_data real_of_int (\<lambda>i. int i - 2) 5 (3, 2, 1) CDF97_new) = WrongDims \<and>
   fst (take_data [1, 2, 3, 4, 5, 6] (3, 2, 1) CDF97_new) = Good \<and>
   fst (take_data [1, 2, 3, 4, 5] (3, 2, 1) CDF97_new) = WrongDims"
proof -
  have a: "unat (6 :: size_t) = unat (3 :: size_t) * unat (2 :: size_t) * unat (1 :: size_t)"
    and b: "unat (5 :: size_t) \<noteq> unat (3 :: size_t) * unat (2 :: size_t) * unat (1 :: size_t)"
    by simp_all
  have "copy_data real_of_int (\<lambda>i. int i - 2) 6 (3, 2, 1) CDF97_new =
     (Good, \<lparr>m_data_buf = [-2, -1, 0, 1, 2, 3], m_dims = (3, 2, 1),
             m_qcc_buf = [0, 0, 0, 0, 0, 0], m_slice_buf = []\<rparr>)"
  proof -
    have "[0..<6] = [0, 1, 2, 3, 4, 5 :: nat]"
      by code_simp
    moreover have "replicate 6 (0 :: real) = [0, 0, 0, 0, 0, 0]"
      by code_simp
    ultimately show ?thesis
      by (simp add: copy_data_def volume_def max_col_def CDF97_new_def)
  qed
  moreover have "fst (copy_data real_of_int (\<lambda>i. int i - 2) 5 (3, 2, 1) CDF97_new) = WrongDims"
    using ingest_outcome [of real_of_int "\<lambda>i. int i - 2" 5 3 2 1 CDF97_new] b by blast
  moreover have "fst (take_data [1, 2, 3, 4, 5, 6] (3, 2, 1) CDF97_new) = Good"
    using ingest_outcome [of real_of_int "\<lambda>i. int i - 2" 6 3 2 1 CDF97_new "[1, 2, 3, 4, 5, 6]"]
    by simp
  moreover have "fst (take_data [1, 2, 3, 4, 5] (3, 2, 1) CDF97_new) = WrongDims"
    using ingest_outcome [of real_of_int "\<lambda>i. int i - 2" 6 3 2 1 CDF97_new "[1, 2, 3, 4, 5]"]
    by simp
  ultimately show ?thesis
    using a b by blast
qed

end
